theory Spec2Isabelle
  imports Main "HOL-Library.Code_Target_Nat"
begin

section \<open>Python values that cross the wire\<close>

text \<open>
  The SDK exchanges JSON documents with the vault daemon. A JSON document, as Python's
  \<^verbatim>\<open>json\<close> module hands it to the program, is modelled by the datatype below:
  \<^verbatim>\<open>None\<close> is \<open>JNull\<close>, a \<^verbatim>\<open>dict\<close> is an association list in insertion order
  (a Python \<^verbatim>\<open>dict\<close> never holds one key twice, see \<open>wf_json\<close>), a \<^verbatim>\<open>str\<close> is a
  \<open>string\<close> whose characters are the code points below 256. Floating point numbers and
  code points from 256 on are outside the model. Byte strings are lists of 8-bit
  characters as well.
\<close>

type_synonym bytes = string

datatype json =
    JNull
  | JBool bool
  | JInt int
  | JStr string
  | JArr "json list"
  | JObj "(string \<times> json) list"

fun wf_json :: "json \<Rightarrow> bool" where
  "wf_json (JArr xs) = (\<forall>x \<in> set xs. wf_json x)"
| "wf_json (JObj ms) = (distinct (map fst ms) \<and> (\<forall>m \<in> set ms. wf_json (snd m)))"
| "wf_json _ = True"

text \<open>Truth value of a Python object, as \<^verbatim>\<open>if x\<close> and \<^verbatim>\<open>not x\<close> see it.\<close>

fun py_truthy :: "json \<Rightarrow> bool" where
  "py_truthy JNull = False"
| "py_truthy (JBool b) = b"
| "py_truthy (JInt i) = (i \<noteq> 0)"
| "py_truthy (JStr s) = (s \<noteq> [])"
| "py_truthy (JArr xs) = (xs \<noteq> [])"
| "py_truthy (JObj ms) = (ms \<noteq> [])"

definition str_truthy :: "string option \<Rightarrow> bool" where
  "str_truthy x = (case x of None \<Rightarrow> False | Some s \<Rightarrow> s \<noteq> [])"

subsection \<open>Exceptions\<close>

text \<open>
  Modelled from the spec: \<^verbatim>\<open>sanctum_ai/exceptions.py\<close> (the class \<^verbatim>\<open>VaultError\<close>, its
  subclasses and the table \<^verbatim>\<open>CODE_TO_EXCEPTION\<close>) is imported by the sources but is not
  among them. Following sections 4.2 and 7 of the specification, a vault failure has a
  kind, a message, and the optional fields code, detail, suggestion, docs_url and context;
  every kind is a \<^verbatim>\<open>VaultError\<close> (the table falls back to that class, and \<^verbatim>\<open>close\<close>
  catches it). A field the raising code does not pass is \<open>None\<close> here: the default of
  the absent constructor is not known.
\<close>

datatype vault_kind =
    VaultError | AuthError | AccessDenied | CredentialNotFound
  | VaultLocked | LeaseExpired | RateLimited | SessionExpired

record vault_exc =
  exc_kind :: vault_kind
  exc_message :: json
  exc_code :: "json option"
  exc_detail :: "json option"
  exc_suggestion :: "json option"
  exc_docs_url :: "json option"
  exc_context :: "json option"

text \<open>
  Every exception the modelled code can raise. \<open>ValueError\<close> stands for the built-in
  class and its subclasses raised by \<^verbatim>\<open>bytes.fromhex\<close> and by PyNaCl's argument checks;
  \<open>JSONDecodeError\<close> for what \<^verbatim>\<open>json.loads\<close> raises; \<open>OSError\<close> for socket and file
  errors (\<^verbatim>\<open>FileNotFoundError\<close>, \<^verbatim>\<open>BrokenPipeError\<close>, ...); \<open>StructError\<close> for
  \<^verbatim>\<open>struct.error\<close>; \<open>CryptoError\<close> for a failed \<^verbatim>\<open>SecretBox.decrypt\<close>.
\<close>

datatype exn =
    Vault vault_exc
  | OSError
  | JSONDecodeError
  | AttributeError
  | TypeError
  | KeyError string
  | IndexError
  | ValueError
  | OverflowError
  | StructError
  | CryptoError

fun is_vault :: "exn \<Rightarrow> bool" where
  "is_vault (Vault _) = True"
| "is_vault _ = False"

definition vault_msg :: "vault_kind \<Rightarrow> string \<Rightarrow> exn" where
  "vault_msg k msg =
     Vault \<lparr>exc_kind = k, exc_message = JStr msg, exc_code = None, exc_detail = None,
            exc_suggestion = None, exc_docs_url = None, exc_context = None\<rparr>"

definition vault_coded :: "vault_kind \<Rightarrow> string \<Rightarrow> string \<Rightarrow> exn" where
  "vault_coded k msg c =
     Vault \<lparr>exc_kind = k, exc_message = JStr msg, exc_code = Some (JStr c), exc_detail = None,
            exc_suggestion = None, exc_docs_url = None, exc_context = None\<rparr>"

definition CODE_TO_EXCEPTION :: "(string \<times> vault_kind) list" where
  "CODE_TO_EXCEPTION =
     [(''AUTH_FAILED'', AuthError),
      (''ACCESS_DENIED'', AccessDenied),
      (''CREDENTIAL_NOT_FOUND'', CredentialNotFound),
      (''VAULT_LOCKED'', VaultLocked),
      (''LEASE_EXPIRED'', LeaseExpired),
      (''RATE_LIMITED'', RateLimited),
      (''SESSION_EXPIRED'', SessionExpired)]"

subsection \<open>Dictionary access\<close>

text \<open>
  \<^verbatim>\<open>d.get(k, default)\<close> and \<^verbatim>\<open>d[k]\<close>. The receiver comes from the peer and need not
  be a \<^verbatim>\<open>dict\<close>: \<^verbatim>\<open>.get\<close> on anything else raises \<^verbatim>\<open>AttributeError\<close>, subscripting
  anything else with a string raises \<^verbatim>\<open>TypeError\<close>.
\<close>

definition dict_get :: "(string \<times> json) list \<Rightarrow> string \<Rightarrow> json \<Rightarrow> json" where
  "dict_get d k dflt = (case map_of d k of None \<Rightarrow> dflt | Some v \<Rightarrow> v)"

definition py_get :: "json \<Rightarrow> string \<Rightarrow> json \<Rightarrow> exn + json" where
  "py_get x k dflt = (case x of JObj d \<Rightarrow> Inr (dict_get d k dflt) | _ \<Rightarrow> Inl AttributeError)"

definition subscript :: "json \<Rightarrow> string \<Rightarrow> exn + json" where
  "subscript x k =
     (case x of
        JObj d \<Rightarrow> (case map_of d k of None \<Rightarrow> Inl (KeyError k) | Some v \<Rightarrow> Inr v)
      | _ \<Rightarrow> Inl TypeError)"

section \<open>The JSON text codec\<close>

text \<open>
  \<^verbatim>\<open>json.dumps(obj, separators=(",", ":"))\<close> and \<^verbatim>\<open>json.loads\<close> belong to Python's
  standard library. They are modelled for the values of type \<open>json\<close>: the encoder writes
  the compact form with the default \<^verbatim>\<open>ensure_ascii\<close> escapes, so its output is pure
  ASCII and \<^verbatim>\<open>.encode()\<close> maps it to bytes one to one; the decoder accepts JSON text
  with insignificant whitespace, integer literals and strings of ASCII characters and
  escapes. Text outside that fragment (fractions, exponents, \<^verbatim>\<open>NaN\<close>, raw bytes from
  128 on, escapes of code points above 255) is reported as a decoding error by the model.
\<close>

definition hex_digit :: "nat \<Rightarrow> char" where
  "hex_digit k = ''0123456789abcdef'' ! k"

definition esc_char :: "char \<Rightarrow> string" where
  "esc_char c =
     (if c = CHR 0x22 then [CHR 0x5C, CHR 0x22]
      else if c = CHR 0x5C then [CHR 0x5C, CHR 0x5C]
      else if c = CHR 0x0A then [CHR 0x5C, CHR ''n'']
      else if c = CHR 0x0D then [CHR 0x5C, CHR ''r'']
      else if c = CHR 0x09 then [CHR 0x5C, CHR ''t'']
      else if c = CHR 0x08 then [CHR 0x5C, CHR ''b'']
      else if c = CHR 0x0C then [CHR 0x5C, CHR ''f'']
      else if 32 \<le> (of_char c :: nat) \<and> (of_char c :: nat) \<le> 126 then [c]
      else [CHR 0x5C, CHR ''u'', CHR ''0'', CHR ''0'',
            hex_digit ((of_char c :: nat) div 16), hex_digit ((of_char c :: nat) mod 16)])"

definition py_quote :: "string \<Rightarrow> string" where
  "py_quote s = CHR 0x22 # concat (map esc_char s) @ [CHR 0x22]"

fun show_nat :: "nat \<Rightarrow> string" where
  "show_nat n =
     (if n < 10 then [''0123456789'' ! n]
      else show_nat (n div 10) @ [''0123456789'' ! (n mod 10)])"

declare show_nat.simps [simp del]

definition show_int :: "int \<Rightarrow> string" where
  "show_int i = (if i < 0 then CHR ''-'' # show_nat (nat (- i)) else show_nat (nat i))"

fun json_dumps :: "json \<Rightarrow> bytes"
and dumps_elems :: "json list \<Rightarrow> bytes"
and dumps_members :: "(string \<times> json) list \<Rightarrow> bytes" where
  "json_dumps JNull = ''null''"
| "json_dumps (JBool b) = (if b then ''true'' else ''false'')"
| "json_dumps (JInt i) = show_int i"
| "json_dumps (JStr s) = py_quote s"
| "json_dumps (JArr xs) = CHR ''['' # dumps_elems xs @ [CHR '']'']"
| "json_dumps (JObj ms) = CHR ''{'' # dumps_members ms @ [CHR ''}'']"
| "dumps_elems [] = []"
| "dumps_elems [x] = json_dumps x"
| "dumps_elems (x # y # ys) = json_dumps x @ CHR '','' # dumps_elems (y # ys)"
| "dumps_members [] = []"
| "dumps_members [(k, v)] = py_quote k @ CHR '':'' # json_dumps v"
| "dumps_members ((k, v) # m # ms) =
     py_quote k @ CHR '':'' # json_dumps v @ CHR '','' # dumps_members (m # ms)"

definition is_ws :: "char \<Rightarrow> bool" where
  "is_ws c \<longleftrightarrow> c = CHR '' '' \<or> c = CHR 0x09 \<or> c = CHR 0x0A \<or> c = CHR 0x0D"

definition skip_ws :: "string \<Rightarrow> string" where
  "skip_ws = dropWhile is_ws"

definition is_digit :: "char \<Rightarrow> bool" where
  "is_digit c \<longleftrightarrow> 48 \<le> (of_char c :: nat) \<and> (of_char c :: nat) \<le> 57"

definition digits_val :: "string \<Rightarrow> nat" where
  "digits_val ds = foldl (\<lambda>a c. 10 * a + ((of_char c :: nat) - 48)) 0 ds"

definition hexval :: "char \<Rightarrow> nat option" where
  "hexval c =
     (let n = (of_char c :: nat) in
      if 48 \<le> n \<and> n \<le> 57 then Some (n - 48)
      else if 97 \<le> n \<and> n \<le> 102 then Some (n - 87)
      else if 65 \<le> n \<and> n \<le> 70 then Some (n - 55)
      else None)"

definition unescape :: "char \<Rightarrow> char option" where
  "unescape e =
     (if e = CHR 0x22 then Some (CHR 0x22)
      else if e = CHR 0x5C then Some (CHR 0x5C)
      else if e = CHR ''/'' then Some (CHR ''/'')
      else if e = CHR ''b'' then Some (CHR 0x08)
      else if e = CHR ''f'' then Some (CHR 0x0C)
      else if e = CHR ''n'' then Some (CHR 0x0A)
      else if e = CHR ''r'' then Some (CHR 0x0D)
      else if e = CHR ''t'' then Some (CHR 0x09)
      else None)"

definition cons_fst :: "'a \<Rightarrow> ('a list \<times> 'b) option \<Rightarrow> ('a list \<times> 'b) option" where
  "cons_fst x r = (case r of None \<Rightarrow> None | Some (xs, rest) \<Rightarrow> Some (x # xs, rest))"

text \<open>The body of a string literal, after its opening quote.\<close>

fun parse_string :: "string \<Rightarrow> (string \<times> string) option" where
  "parse_string [] = None"
| "parse_string (c # r) =
    (if c = CHR 0x22 then Some ([], r)
     else if c = CHR 0x5C then
       (case r of
          [] \<Rightarrow> None
        | e # r1 \<Rightarrow>
            if e = CHR ''u'' then
              (case r1 of
                 h1 # h2 # h3 # h4 # r2 \<Rightarrow>
                   (case (hexval h1, hexval h2, hexval h3, hexval h4) of
                      (Some a, Some b, Some x, Some y) \<Rightarrow>
                        if a = 0 \<and> b = 0 then cons_fst (char_of (16 * x + y)) (parse_string r2)
                        else None
                    | _ \<Rightarrow> None)
               | _ \<Rightarrow> None)
            else (case unescape e of
                    None \<Rightarrow> None
                  | Some x \<Rightarrow> cons_fst x (parse_string r1)))
     else if (of_char c :: nat) < 32 \<or> 128 \<le> (of_char c :: nat) then None
     else cons_fst c (parse_string r))"

text \<open>
  An integer literal: an optional minus sign and digits without a leading zero. A literal
  that goes on with a fraction or an exponent is a float and is not modelled.
\<close>

definition parse_number :: "string \<Rightarrow> (json \<times> string) option" where
  "parse_number s =
     (let neg = (s \<noteq> [] \<and> hd s = CHR ''-'');
          s1 = (if neg then tl s else s);
          ds = takeWhile is_digit s1;
          r = dropWhile is_digit s1
      in if ds = [] then None
         else if hd ds = CHR ''0'' \<and> 1 < length ds then None
         else if r \<noteq> [] \<and> (hd r = CHR ''.'' \<or> hd r = CHR ''e'' \<or> hd r = CHR ''E'') then None
         else Some (JInt (if neg then - int (digits_val ds) else int (digits_val ds)), r))"

text \<open>
  The decoder builds a \<^verbatim>\<open>dict\<close> from the members in the order read: a repeated key
  keeps its first position and takes the later value.
\<close>

fun dict_set :: "('k \<times> 'v) list \<Rightarrow> 'k \<Rightarrow> 'v \<Rightarrow> ('k \<times> 'v) list" where
  "dict_set [] k v = [(k, v)]"
| "dict_set ((k', v') # d) k v = (if k' = k then (k', v) # d else (k', v') # dict_set d k v)"

definition dict_of_pairs :: "('k \<times> 'v) list \<Rightarrow> ('k \<times> 'v) list" where
  "dict_of_pairs ps = foldl (\<lambda>d (k, v). dict_set d k v) [] ps"

text \<open>
  Recursive descent with a bound on the nesting and on the number of members still to
  read; \<open>json_loads\<close> starts it with more than the length of the text, which no document
  can use up, so the decoder is total as the library function is.
\<close>

fun parse_value :: "nat \<Rightarrow> string \<Rightarrow> (json \<times> string) option"
and parse_elems :: "nat \<Rightarrow> string \<Rightarrow> (json list \<times> string) option"
and parse_members :: "nat \<Rightarrow> string \<Rightarrow> ((string \<times> json) list \<times> string) option" where
  "parse_value 0 s = None"
| "parse_value (Suc f) s =
     (if s = [] then None
      else if hd s = CHR 0x22 then
        (case parse_string (tl s) of None \<Rightarrow> None | Some (x, r) \<Rightarrow> Some (JStr x, r))
      else if hd s = CHR ''['' then
        (if skip_ws (tl s) \<noteq> [] \<and> hd (skip_ws (tl s)) = CHR '']''
         then Some (JArr [], tl (skip_ws (tl s)))
         else (case parse_elems f (skip_ws (tl s)) of
                 None \<Rightarrow> None
               | Some (xs, r) \<Rightarrow> Some (JArr xs, r)))
      else if hd s = CHR ''{'' then
        (if skip_ws (tl s) \<noteq> [] \<and> hd (skip_ws (tl s)) = CHR ''}''
         then Some (JObj [], tl (skip_ws (tl s)))
         else (case parse_members f (skip_ws (tl s)) of
                 None \<Rightarrow> None
               | Some (ms, r) \<Rightarrow> Some (JObj (dict_of_pairs ms), r)))
      else if take 4 s = ''null'' then Some (JNull, drop 4 s)
      else if take 4 s = ''true'' then Some (JBool True, drop 4 s)
      else if take 5 s = ''false'' then Some (JBool False, drop 5 s)
      else parse_number s)"
| "parse_elems 0 s = None"
| "parse_elems (Suc f) s =
     (case parse_value f s of
        None \<Rightarrow> None
      | Some (v, r) \<Rightarrow>
          (let r1 = skip_ws r in
           if r1 = [] then None
           else if hd r1 = CHR '']'' then Some ([v], tl r1)
           else if hd r1 = CHR '','' then cons_fst v (parse_elems f (skip_ws (tl r1)))
           else None))"
| "parse_members 0 s = None"
| "parse_members (Suc f) s =
     (if s = [] \<or> hd s \<noteq> CHR 0x22 then None
      else
        (case parse_string (tl s) of
           None \<Rightarrow> None
         | Some (k, r) \<Rightarrow>
             (let r1 = skip_ws r in
              if r1 = [] \<or> hd r1 \<noteq> CHR '':'' then None
              else
                (case parse_value f (skip_ws (tl r1)) of
                   None \<Rightarrow> None
                 | Some (v, r2) \<Rightarrow>
                     (let r3 = skip_ws r2 in
                      if r3 = [] then None
                      else if hd r3 = CHR ''}'' then Some ([(k, v)], tl r3)
                      else if hd r3 = CHR '','' then
                        cons_fst (k, v) (parse_members f (skip_ws (tl r3)))
                      else None)))))"

definition json_loads :: "bytes \<Rightarrow> exn + json" where
  "json_loads s =
     (case parse_value (Suc (length s)) (skip_ws s) of
        None \<Rightarrow> Inl JSONDecodeError
      | Some (v, r) \<Rightarrow> if skip_ws r = [] then Inr v else Inl JSONDecodeError)"

section \<open>Byte strings\<close>

text \<open>
  \<^verbatim>\<open>bytes.fromhex\<close> skips ASCII whitespace between the two-digit groups and raises
  \<^verbatim>\<open>ValueError\<close> on anything else that is not a pair of hexadecimal digits;
  \<^verbatim>\<open>bytes.hex\<close> writes two lower-case digits for each byte; \<^verbatim>\<open>str.strip\<close> removes
  the white space at both ends; \<^verbatim>\<open>str.encode\<close> is UTF-8.
\<close>

definition is_space :: "char \<Rightarrow> bool" where
  "is_space c \<longleftrightarrow> (9 \<le> (of_char c :: nat) \<and> (of_char c :: nat) \<le> 13) \<or> c = CHR '' ''"

fun bytes_fromhex :: "string \<Rightarrow> exn + bytes" where
  "bytes_fromhex [] = Inr []"
| "bytes_fromhex [c] = (if is_space c then Inr [] else Inl ValueError)"
| "bytes_fromhex (c # d # r) =
     (if is_space c then bytes_fromhex (d # r)
      else (case (hexval c, hexval d) of
              (Some a, Some b) \<Rightarrow>
                (case bytes_fromhex r of
                   Inl e \<Rightarrow> Inl e
                 | Inr bs \<Rightarrow> Inr (char_of (16 * a + b) # bs))
            | _ \<Rightarrow> Inl ValueError))"

definition fromhex_value :: "json \<Rightarrow> exn + bytes" where
  "fromhex_value x = (case x of JStr s \<Rightarrow> bytes_fromhex s | _ \<Rightarrow> Inl TypeError)"

definition bytes_hex :: "bytes \<Rightarrow> string" where
  "bytes_hex bs =
     concat (map (\<lambda>c. [hex_digit ((of_char c :: nat) div 16), hex_digit ((of_char c :: nat) mod 16)]) bs)"

definition py_isspace :: "char \<Rightarrow> bool" where
  "py_isspace c \<longleftrightarrow>
     (let n = (of_char c :: nat)
      in (9 \<le> n \<and> n \<le> 13) \<or> (28 \<le> n \<and> n \<le> 32) \<or> n = 133 \<or> n = 160)"

definition py_strip :: "string \<Rightarrow> string" where
  "py_strip s = rev (dropWhile py_isspace (rev (dropWhile py_isspace s)))"

definition utf8_encode :: "string \<Rightarrow> bytes" where
  "utf8_encode s =
     concat (map (\<lambda>c. if (of_char c :: nat) < 128 then [c]
                       else [char_of (192 + (of_char c :: nat) div 64),
                             char_of (128 + (of_char c :: nat) mod 64)]) s)"

section \<open>Wire protocol (protocol.py)\<close>

text \<open>
  \<^verbatim>\<open>
  MAX_MESSAGE_SIZE = 4 * 1024 * 1024  # 4 MiB
  \<close>
  \<^verbatim>\<open>struct.pack(">I", n)\<close> writes \<open>n\<close> as four bytes, most significant first, and raises
  \<^verbatim>\<open>struct.error\<close> when \<open>n\<close> does not fit; \<^verbatim>\<open>struct.unpack(">I", b)\<close> wants exactly
  four bytes.
\<close>

definition MAX_MESSAGE_SIZE :: nat where
  "MAX_MESSAGE_SIZE = 4 * 1024 * 1024"

definition be32 :: "nat \<Rightarrow> bytes" where
  "be32 n = [char_of (n div 16777216), char_of (n div 65536), char_of (n div 256), char_of n]"

definition pack_u32 :: "nat \<Rightarrow> exn + bytes" where
  "pack_u32 n = (if n < 4294967296 then Inr (be32 n) else Inl StructError)"

definition unpack_u32 :: "bytes \<Rightarrow> exn + nat" where
  "unpack_u32 b =
     (case b of
        [b3, b2, b1, b0] \<Rightarrow>
          Inr (of_char b3 * 16777216 + of_char b2 * 65536 + of_char b1 * 256 + of_char b0)
      | _ \<Rightarrow> Inl StructError)"

text \<open>
  \<^verbatim>\<open>
  def raise_on_error(resp: dict) -> None:
      err = resp.get("error")
      if err is None:
          return
      # Legacy string errors
      if isinstance(err, str):
          raise VaultError(err)
      # Structured errors
      code = err.get("code", "INTERNAL_ERROR")
      cls = CODE_TO_EXCEPTION.get(code, VaultError)
      raise cls(
          err.get("message", "Unknown error"),
          code=code,
          detail=err.get("detail"),
          suggestion=err.get("suggestion"),
          docs_url=err.get("docs_url"),
          context=err.get("context", {}),
      )
  \<close>
  The table lookup hashes \<open>code\<close>: a list or a dict there raises \<^verbatim>\<open>TypeError\<close>; any
  other value that is not a key of the table gives the fallback class.
\<close>

definition lookup_class :: "json \<Rightarrow> exn + vault_kind" where
  "lookup_class code =
     (case code of
        JStr c \<Rightarrow> (case map_of CODE_TO_EXCEPTION c of None \<Rightarrow> Inr VaultError | Some k \<Rightarrow> Inr k)
      | JArr _ \<Rightarrow> Inl TypeError
      | JObj _ \<Rightarrow> Inl TypeError
      | _ \<Rightarrow> Inr VaultError)"

definition raise_on_error :: "json \<Rightarrow> exn + unit" where
  "raise_on_error resp =
     (case py_get resp ''error'' JNull of
        Inl e \<Rightarrow> Inl e
      | Inr err \<Rightarrow>
          (case err of
             JNull \<Rightarrow> Inr ()
           | JStr msg \<Rightarrow> Inl (vault_msg VaultError msg)
           | JObj d \<Rightarrow>
               (let code = dict_get d ''code'' (JStr ''INTERNAL_ERROR'') in
                case lookup_class code of
                  Inl e \<Rightarrow> Inl e
                | Inr cls \<Rightarrow>
                    Inl (Vault \<lparr>exc_kind = cls,
                                exc_message = dict_get d ''message'' (JStr ''Unknown error''),
                                exc_code = Some code,
                                exc_detail = Some (dict_get d ''detail'' JNull),
                                exc_suggestion = Some (dict_get d ''suggestion'' JNull),
                                exc_docs_url = Some (dict_get d ''docs_url'' JNull),
                                exc_context = Some (dict_get d ''context'' (JObj []))\<rparr>))
           | _ \<Rightarrow> Inl AttributeError))"


definition decode_frame :: "bytes \<Rightarrow> exn + (json \<times> bytes)" where
  "decode_frame data =
     (if length data < 4 then Inl (vault_coded VaultError ''Incomplete frame header'' ''INTERNAL_ERROR'')
      else
        (case unpack_u32 (take 4 data) of
           Inl e \<Rightarrow> Inl e
         | Inr n \<Rightarrow>
             if length data < 4 + n
             then Inl (vault_coded VaultError ''Incomplete frame body'' ''INTERNAL_ERROR'')
             else
               (case json_loads (take n (drop 4 data)) of
                  Inl e \<Rightarrow> Inl e
                | Inr obj \<Rightarrow> Inr (obj, drop (4 + n) data))))"

section \<open>The environment: sockets and files\<close>

text \<open>
  What the operating system and the peer do is a value the program runs against. A
  socket holds what the peer will still deliver, in the pieces \<^verbatim>\<open>recv\<close> will see
  (\<open>Reset\<close> stands for a failing \<^verbatim>\<open>recv\<close>, an empty piece or the end of the list for
  the end of the stream), how many \<^verbatim>\<open>sendall\<close> calls will still go through, and
  everything written so far. The world holds every socket ever created (a socket object
  is its index; nothing but \<^verbatim>\<open>close()\<close> closes one: there is no garbage collector
  here), the outcome of the connection attempts still to come, the text files, and the
  home directory \<^verbatim>\<open>os.path.expanduser\<close> inserts.
\<close>

datatype address = AF_INET json json | AF_UNIX string

datatype recv_event = Data bytes | Reset

record sock_state =
  sk_open :: bool
  sk_peer :: "address option"
  sk_inbox :: "recv_event list"
  sk_sends :: nat
  sk_outbox :: bytes

datatype conn_script = Refuse | Accept "recv_event list" nat

record world =
  socks :: "sock_state list"
  pending :: "conn_script list"
  files :: "(string \<times> string) list"
  home :: string

type_synonym 'a sys = "world \<Rightarrow> (exn + 'a) \<times> world"

definition sock_put :: "nat \<Rightarrow> sock_state \<Rightarrow> world \<Rightarrow> world" where
  "sock_put i s w = w\<lparr>socks := (socks w)[i := s]\<rparr>"

definition usable :: "nat \<Rightarrow> world \<Rightarrow> bool" where
  "usable i w \<longleftrightarrow> i < length (socks w) \<and> sk_open (socks w ! i) \<and> sk_peer (socks w ! i) \<noteq> None"

text \<open>\<^verbatim>\<open>socket.socket(family, SOCK_STREAM)\<close>: a new, unconnected socket.\<close>

definition sock_new :: "world \<Rightarrow> nat \<times> world" where
  "sock_new w =
     (length (socks w),
      w\<lparr>socks := socks w @ [\<lparr>sk_open = True, sk_peer = None, sk_inbox = [], sk_sends = 0,
                               sk_outbox = []\<rparr>]\<rparr>)"

text \<open>
  \<^verbatim>\<open>sock.connect(address)\<close>: an internet address wants a host string and an integer
  port in range; then the next scripted outcome decides.
\<close>

definition address_check :: "address \<Rightarrow> exn option" where
  "address_check a =
     (case a of
        AF_UNIX p \<Rightarrow> None
      | AF_INET h p \<Rightarrow>
          (case h of
             JStr _ \<Rightarrow>
               (case p of
                  JInt n \<Rightarrow> if 0 \<le> n \<and> n \<le> 65535 then None else Some OverflowError
                | JBool _ \<Rightarrow> None
                | _ \<Rightarrow> Some TypeError)
           | _ \<Rightarrow> Some TypeError))"

definition sock_connect :: "nat \<Rightarrow> address \<Rightarrow> unit sys" where
  "sock_connect i a w =
     (if \<not> (i < length (socks w) \<and> sk_open (socks w ! i)) then (Inl OSError, w)
      else
        (case address_check a of
           Some e \<Rightarrow> (Inl e, w)
         | None \<Rightarrow>
             (case pending w of
                [] \<Rightarrow> (Inl OSError, w)
              | Refuse # ps \<Rightarrow> (Inl OSError, w\<lparr>pending := ps\<rparr>)
              | Accept evs n # ps \<Rightarrow>
                  (Inr (),
                   sock_put i ((socks w ! i)\<lparr>sk_peer := Some a, sk_inbox := evs, sk_sends := n\<rparr>)
                     (w\<lparr>pending := ps\<rparr>)))))"

text \<open>\<^verbatim>\<open>sock.sendall(data)\<close>.\<close>

definition sock_sendall :: "nat \<Rightarrow> bytes \<Rightarrow> unit sys" where
  "sock_sendall i data w =
     (if \<not> usable i w \<or> sk_sends (socks w ! i) = 0 then (Inl OSError, w)
      else
        (Inr (),
         sock_put i ((socks w ! i)\<lparr>sk_sends := sk_sends (socks w ! i) - 1,
                                   sk_outbox := sk_outbox (socks w ! i) @ data\<rparr>) w))"

text \<open>\<^verbatim>\<open>sock.recv(k)\<close>: at most \<open>k\<close> bytes of the next piece; \<^verbatim>\<open>b""\<close> at the end.\<close>

definition sock_recv :: "nat \<Rightarrow> nat \<Rightarrow> bytes sys" where
  "sock_recv i k w =
     (if \<not> usable i w then (Inl OSError, w)
      else
        (case sk_inbox (socks w ! i) of
           [] \<Rightarrow> (Inr [], w)
         | Reset # evs \<Rightarrow> (Inl OSError, sock_put i ((socks w ! i)\<lparr>sk_inbox := evs\<rparr>) w)
         | Data c # evs \<Rightarrow>
             if c = [] then (Inr [], w)
             else if length c \<le> k then (Inr c, sock_put i ((socks w ! i)\<lparr>sk_inbox := evs\<rparr>) w)
             else (Inr (take k c),
                   sock_put i ((socks w ! i)\<lparr>sk_inbox := Data (drop k c) # evs\<rparr>) w)))"

text \<open>\<^verbatim>\<open>sock.close()\<close>.\<close>

definition sock_close :: "nat \<Rightarrow> world \<Rightarrow> world" where
  "sock_close i w =
     (if i < length (socks w) then sock_put i ((socks w ! i)\<lparr>sk_open := False\<rparr>) w else w)"

text \<open>
  \<^verbatim>\<open>os.path.expanduser\<close> for the forms \<^verbatim>\<open>~\<close> and \<^verbatim>\<open>~/...\<close> (a \<^verbatim>\<open>~user\<close> prefix is
  left as it is, as the library does for an unknown user), \<^verbatim>\<open>os.path.join\<close> of two
  parts, \<^verbatim>\<open>os.path.exists\<close>, and reading a text file.
\<close>

definition rstrip_slash :: "string \<Rightarrow> string" where
  "rstrip_slash s = rev (dropWhile (\<lambda>c. c = CHR ''/'') (rev s))"

definition expanduser :: "world \<Rightarrow> string \<Rightarrow> string" where
  "expanduser w p =
     (if p = ''~'' \<or> take 2 p = ''~/''
      then (if rstrip_slash (home w) @ tl p = [] then ''/'' else rstrip_slash (home w) @ tl p)
      else p)"

definition path_join :: "string \<Rightarrow> string \<Rightarrow> string" where
  "path_join a b =
     (if b \<noteq> [] \<and> hd b = CHR ''/'' then b
      else if a = [] \<or> last a = CHR ''/'' then a @ b
      else a @ CHR ''/'' # b)"

definition path_exists :: "world \<Rightarrow> string \<Rightarrow> bool" where
  "path_exists w p \<longleftrightarrow> map_of (files w) p \<noteq> None"

definition read_text :: "world \<Rightarrow> string \<Rightarrow> exn + string" where
  "read_text w p = (case map_of (files w) p of None \<Rightarrow> Inl OSError | Some t \<Rightarrow> Inr t)"

subsection \<open>Sending and receiving one message\<close>

text \<open>
  \<^verbatim>\<open>
  def send(sock, obj):
      payload = json.dumps(obj, separators=(",", ":")).encode()
      sock.sendall(struct.pack(">I", len(payload)) + payload)

  def _read_exact(sock, n):
      buf = bytearray()
      while len(buf) < n:
          chunk = sock.recv(n - len(buf))
          if not chunk:
              raise VaultError("Connection closed", code="INTERNAL_ERROR")
          buf.extend(chunk)
      return bytes(buf)

  def recv(sock):
      length = struct.unpack(">I", _read_exact(sock, 4))[0]
      if length > MAX_MESSAGE_SIZE:
          raise VaultError("Response too large", code="INTERNAL_ERROR")
      return json.loads(_read_exact(sock, length))
  \<close>
  The loop of \<^verbatim>\<open>_read_exact\<close> carries the buffer; every round adds at least one byte or
  leaves by the exception.
\<close>

definition send :: "nat \<Rightarrow> json \<Rightarrow> unit sys" where
  "send i obj w =
     (case pack_u32 (length (json_dumps obj)) of
        Inl e \<Rightarrow> (Inl e, w)
      | Inr header \<Rightarrow> sock_sendall i (header @ json_dumps obj) w)"

function read_exact :: "nat \<Rightarrow> nat \<Rightarrow> bytes \<Rightarrow> bytes sys" where
  "read_exact i n buf w =
     (if length buf < n then
        (case sock_recv i (n - length buf) w of
           (Inl e, w') \<Rightarrow> (Inl e, w')
         | (Inr chunk, w') \<Rightarrow>
             if chunk = [] then (Inl (vault_coded VaultError ''Connection closed'' ''INTERNAL_ERROR''), w')
             else read_exact i n (buf @ chunk) w')
      else (Inr buf, w))"
  by pat_completeness auto
termination
proof (relation "measure (\<lambda>(i, n, buf, w). n - length buf)")
  fix i n :: nat and buf chunk :: bytes
  assume "length buf < n" and "chunk \<noteq> []"
  then have "0 < length chunk" by simp
  with \<open>length buf < n\<close> have "n - (length buf + length chunk) < n - length buf" by arith
  then show "((i, n, buf @ chunk, w'), (i, n, buf, w)) \<in> measure (\<lambda>(i, n, buf, w). n - length buf)"
    for w w' :: world
    by simp
qed simp

declare read_exact.simps [simp del]

definition recv :: "nat \<Rightarrow> json sys" where
  "recv i w =
     (case read_exact i 4 [] w of
        (Inl e, w1) \<Rightarrow> (Inl e, w1)
      | (Inr header, w1) \<Rightarrow>
          (case unpack_u32 header of
             Inl e \<Rightarrow> (Inl e, w1)
           | Inr n \<Rightarrow>
               if n > MAX_MESSAGE_SIZE
               then (Inl (vault_coded VaultError ''Response too large'' ''INTERNAL_ERROR''), w1)
               else
                 (case read_exact i n [] w1 of
                    (Inl e, w2) \<Rightarrow> (Inl e, w2)
                  | (Inr body, w2) \<Rightarrow>
                      (case json_loads body of
                         Inl e \<Rightarrow> (Inl e, w2)
                       | Inr obj \<Rightarrow> (Inr obj, w2)))))"

section \<open>The client (client.py)\<close>

text \<open>
  \<^verbatim>\<open>
  def __init__(self, agent_name, *, socket_path=None, host=None, port=None,
               key_path=None, passphrase=None):
      self.agent_name = agent_name
      self._socket_path = socket_path
      self._host = host
      self._port = port
      self._key_path = key_path
      self._passphrase = passphrase
      self._sock: Optional[socket.socket] = None
      self._session_id: Optional[str] = None
      self._req_id = 0
      self._leases: List[str] = []
  \<close>
  \<^verbatim>\<open>_host\<close>, \<^verbatim>\<open>_port\<close> and \<^verbatim>\<open>_session_id\<close> can be overwritten with whatever a
  target dictionary or the peer supplies, so they are \<open>json\<close> values, \<open>JNull\<close> for
  \<^verbatim>\<open>None\<close>. The lease list holds what the peer sent as \<^verbatim>\<open>lease_id\<close>; membership and
  removal compare with \<^verbatim>\<open>==\<close>, which on strings (the declared type) is equality of
  the values.
\<close>

record client =
  agent_name :: string
  socket_path :: "string option"
  host :: json
  port :: json
  key_path :: "string option"
  passphrase :: "string option"
  sock :: "nat option"
  session_id :: json
  req_id :: int
  leases :: "json list"

definition client_init ::
  "string \<Rightarrow> string option \<Rightarrow> string option \<Rightarrow> int option \<Rightarrow> string option \<Rightarrow> string option
     \<Rightarrow> client" where
  "client_init name spath h p kpath pass =
     \<lparr>agent_name = name, socket_path = spath,
      host = (case h of None \<Rightarrow> JNull | Some x \<Rightarrow> JStr x),
      port = (case p of None \<Rightarrow> JNull | Some x \<Rightarrow> JInt x),
      key_path = kpath, passphrase = pass,
      sock = None, session_id = JNull, req_id = 0, leases = []\<rparr>"

definition DEFAULT_SOCKET :: string where
  "DEFAULT_SOCKET = ''~/.sanctum/vault.sock''"

definition DEFAULT_KEY_DIR :: string where
  "DEFAULT_KEY_DIR = ''~/.sanctum/keys''"

subsection \<open>Statements that change the client, the world, or raise\<close>

text \<open>
  A method runs on the pair of the client object and the world and ends with a value or
  an exception; what it assigned before raising stays assigned, so the state comes back
  in both cases.
\<close>

type_synonym session = "client \<times> world"

type_synonym 'a io = "session \<Rightarrow> (exn + 'a) \<times> session"

definition io_return :: "'a \<Rightarrow> 'a io" where
  "io_return x s = (Inr x, s)"

definition io_raise :: "exn \<Rightarrow> 'a io" where
  "io_raise e s = (Inl e, s)"

definition io_bind :: "'a io \<Rightarrow> ('a \<Rightarrow> 'b io) \<Rightarrow> 'b io" where
  "io_bind m f s = (case m s of (Inl e, s') \<Rightarrow> (Inl e, s') | (Inr x, s') \<Rightarrow> f x s')"

definition io_lift :: "exn + 'a \<Rightarrow> 'a io" where
  "io_lift r s = (r, s)"

definition on_world :: "'a sys \<Rightarrow> 'a io" where
  "on_world f s = (case f (snd s) of (r, w') \<Rightarrow> (r, (fst s, w')))"

definition get_client :: "client io" where
  "get_client s = (Inr (fst s), s)"

definition get_world :: "world io" where
  "get_world s = (Inr (snd s), s)"

definition assign :: "(client \<Rightarrow> client) \<Rightarrow> unit io" where
  "assign f s = (Inr (), (f (fst s), snd s))"

text \<open>\<^verbatim>\<open>try: m  except VaultError: pass\<close>\<close>

definition except_vault_pass :: "unit io \<Rightarrow> unit io" where
  "except_vault_pass m s =
     (case m s of
        (Inl e, s') \<Rightarrow> if is_vault e then (Inr (), s') else (Inl e, s')
      | (Inr x, s') \<Rightarrow> (Inr x, s'))"

subsection \<open>Cryptography\<close>

text \<open>
  The Ed25519 signature, PBKDF2-HMAC-SHA256 (100000 rounds, 32 bytes) and the NaCl secret
  box are library functions; the client is defined for any implementation of them. The
  last field is \<^verbatim>\<open>bytes.decode("utf-8", errors="replace")\<close>, which yields code points.
\<close>

record libs =
  ed25519_sign :: "bytes \<Rightarrow> bytes \<Rightarrow> bytes"
  pbkdf2_hmac_sha256 :: "bytes \<Rightarrow> bytes \<Rightarrow> bytes"
  secretbox_decrypt :: "bytes \<Rightarrow> bytes \<Rightarrow> bytes \<Rightarrow> bytes option"
  utf8_decode_replace :: "bytes \<Rightarrow> nat list"

text \<open>\<^verbatim>\<open>SigningKey(seed)\<close> wants a seed of 32 bytes.\<close>

definition SigningKey :: "bytes \<Rightarrow> exn + bytes" where
  "SigningKey seed = (if length seed = 32 then Inr seed else Inl ValueError)"

subsection \<open>RPC\<close>

text \<open>
  \<^verbatim>\<open>
  def _next_id(self) -> int:
      self._req_id += 1
      return self._req_id

  def _call(self, method: str, params: dict) -> dict:
      if self._sock is None:
          raise VaultError("Not connected", code="INTERNAL_ERROR")
      send(self._sock, {"id": self._next_id(), "method": method, "params": params})
      resp = recv(self._sock)
      raise_on_error(resp)
      return resp.get("result", {})
  \<close>
\<close>

definition next_id :: "int io" where
  "next_id s = (Inr (req_id (fst s) + 1), ((fst s)\<lparr>req_id := req_id (fst s) + 1\<rparr>, snd s))"

definition request :: "int \<Rightarrow> string \<Rightarrow> json \<Rightarrow> json" where
  "request rid method params = JObj [(''id'', JInt rid), (''method'', JStr method), (''params'', params)]"

definition call :: "string \<Rightarrow> json \<Rightarrow> json io" where
  "call method params =
     io_bind get_client (\<lambda>c.
       case sock c of
         None \<Rightarrow> io_raise (vault_coded VaultError ''Not connected'' ''INTERNAL_ERROR'')
       | Some i \<Rightarrow>
           io_bind next_id (\<lambda>rid.
           io_bind (on_world (send i (request rid method params))) (\<lambda>_.
           io_bind (on_world (recv i)) (\<lambda>resp.
           io_bind (io_lift (raise_on_error resp)) (\<lambda>_.
           io_lift (py_get resp ''result'' (JObj [])))))))"

subsection \<open>Key resolution\<close>

text \<open>
  \<^verbatim>\<open>
  def _resolve_key(self) -> SigningKey:
      if self._key_path:
          p = os.path.expanduser(self._key_path)
      else:
          base = os.path.expanduser(self.DEFAULT_KEY_DIR)
          enc = os.path.join(base, f"{self.agent_name}.key.enc")
          plain = os.path.join(base, f"{self.agent_name}.key")
          if os.path.exists(enc) and self._passphrase:
              return self._load_encrypted_key(enc, self._passphrase)
          p = plain
      return self._load_signing_key(p)

  def _load_signing_key(path: str) -> SigningKey:
      with open(path, "r") as f:
          raw = f.read().strip()
      seed = bytes.fromhex(raw)
      if len(seed) != 32:
          raise AuthError(
              f"Key file has {len(seed)} bytes, expected 32", code="AUTH_FAILED"
          )
      return SigningKey(seed)

  def _load_encrypted_key(path: str, passphrase: str) -> SigningKey:
      with open(path, "r") as f:
          blob = bytes.fromhex(f.read().strip())
      salt, nonce, ct = blob[:16], blob[16:40], blob[40:]
      dk = hashlib.pbkdf2_hmac("sha256", passphrase.encode(), salt, 100_000, dklen=32)
      box = SecretBox(dk)
      seed = box.decrypt(ct, nonce)
      return SigningKey(seed)
  \<close>
  \<^verbatim>\<open>SecretBox\<close> wants a key of 32 bytes and \<^verbatim>\<open>decrypt\<close> a nonce of 24 bytes; both
  raise PyNaCl's \<^verbatim>\<open>ValueError\<close> otherwise.
\<close>

definition or_empty :: "string option \<Rightarrow> string" where
  "or_empty x = (case x of None \<Rightarrow> [] | Some s \<Rightarrow> s)"

definition load_signing_key :: "world \<Rightarrow> string \<Rightarrow> exn + bytes" where
  "load_signing_key w path =
     (case read_text w path of
        Inl e \<Rightarrow> Inl e
      | Inr raw \<Rightarrow>
          (case bytes_fromhex (py_strip raw) of
             Inl e \<Rightarrow> Inl e
           | Inr seed \<Rightarrow>
               if length seed \<noteq> 32
               then Inl (vault_coded AuthError
                           (''Key file has '' @ show_nat (length seed) @ '' bytes, expected 32'')
                           ''AUTH_FAILED'')
               else SigningKey seed))"

definition load_encrypted_key :: "libs \<Rightarrow> world \<Rightarrow> string \<Rightarrow> string \<Rightarrow> exn + bytes" where
  "load_encrypted_key L w path pass =
     (case read_text w path of
        Inl e \<Rightarrow> Inl e
      | Inr raw \<Rightarrow>
          (case bytes_fromhex (py_strip raw) of
             Inl e \<Rightarrow> Inl e
           | Inr blob \<Rightarrow>
               (let salt = take 16 blob;
                    nonce = take 24 (drop 16 blob);
                    ct = drop 40 blob;
                    dk = pbkdf2_hmac_sha256 L (utf8_encode pass) salt
                in if length dk \<noteq> 32 \<or> length nonce \<noteq> 24 then Inl ValueError
                   else (case secretbox_decrypt L dk nonce ct of
                           None \<Rightarrow> Inl CryptoError
                         | Some seed \<Rightarrow> SigningKey seed))))"

definition resolve_key :: "libs \<Rightarrow> client \<Rightarrow> world \<Rightarrow> exn + bytes" where
  "resolve_key L c w =
     (if str_truthy (key_path c) then load_signing_key w (expanduser w (or_empty (key_path c)))
      else
        (let base = expanduser w DEFAULT_KEY_DIR;
             enc = path_join base (agent_name c @ ''.key.enc'');
             plain = path_join base (agent_name c @ ''.key'')
         in if path_exists w enc \<and> str_truthy (passphrase c)
            then load_encrypted_key L w enc (or_empty (passphrase c))
            else load_signing_key w plain))"

subsection \<open>The handshake\<close>

text \<open>
  \<^verbatim>\<open>
  def _authenticate(self) -> None:
      sk = self._resolve_key()
      r = self._call("authenticate", {"agent_name": self.agent_name})
      self._session_id = r["session_id"]
      challenge = bytes.fromhex(r["challenge"])
      sig = sk.sign(challenge).signature
      r = self._call(
          "challenge_response",
          {"session_id": self._session_id, "signature": sig.hex()},
      )
      if not r.get("authenticated"):
          raise AuthError("Authentication not confirmed", code="AUTH_FAILED")
  \<close>
\<close>

definition authenticate :: "libs \<Rightarrow> unit io" where
  "authenticate L =
     io_bind get_client (\<lambda>c.
     io_bind get_world (\<lambda>w.
     io_bind (io_lift (resolve_key L c w)) (\<lambda>sk.
     io_bind (call ''authenticate'' (JObj [(''agent_name'', JStr (agent_name c))])) (\<lambda>r.
     io_bind (io_lift (subscript r ''session_id'')) (\<lambda>sid.
     io_bind (assign (\<lambda>c. c\<lparr>session_id := sid\<rparr>)) (\<lambda>_.
     io_bind (io_lift (subscript r ''challenge'')) (\<lambda>ch.
     io_bind (io_lift (fromhex_value ch)) (\<lambda>challenge.
     io_bind (call ''challenge_response''
                (JObj [(''session_id'', sid),
                       (''signature'', JStr (bytes_hex (ed25519_sign L sk challenge)))])) (\<lambda>r2.
     io_bind (io_lift (py_get r2 ''authenticated'' JNull)) (\<lambda>a.
     if \<not> py_truthy a then io_raise (vault_coded AuthError ''Authentication not confirmed'' ''AUTH_FAILED'')
     else io_return ()))))))))))"

subsection \<open>Life cycle\<close>

text \<open>
  \<^verbatim>\<open>
  def connect(self, target=None) -> "SanctumClient":
      if target is not None:
          if isinstance(target, str):
              self._socket_path = target
              self._host = None
          elif isinstance(target, dict):
              self._host = target["host"]
              self._port = target["port"]
              self._socket_path = None
          elif isinstance(target, (list, tuple)):
              self._host, self._port = target[0], target[1]
              self._socket_path = None

      if self._host and self._port:
          self._sock = socket.socket(socket.AF_INET, socket.SOCK_STREAM)
          self._sock.connect((self._host, self._port))
      else:
          path = os.path.expanduser(self._socket_path or self.DEFAULT_SOCKET)
          self._sock = socket.socket(socket.AF_UNIX, socket.SOCK_STREAM)
          self._sock.connect(path)

      self._authenticate()
      return self
  \<close>
\<close>

datatype target = TStr string | TDict "(string \<times> json) list" | TSeq "json list" | TOther

definition set_target :: "target option \<Rightarrow> unit io" where
  "set_target t =
     (case t of
        None \<Rightarrow> io_return ()
      | Some (TStr p) \<Rightarrow> assign (\<lambda>c. c\<lparr>socket_path := Some p, host := JNull\<rparr>)
      | Some (TDict d) \<Rightarrow>
          io_bind (io_lift (subscript (JObj d) ''host'')) (\<lambda>h.
          io_bind (assign (\<lambda>c. c\<lparr>host := h\<rparr>)) (\<lambda>_.
          io_bind (io_lift (subscript (JObj d) ''port'')) (\<lambda>p.
          assign (\<lambda>c. c\<lparr>port := p, socket_path := None\<rparr>))))
      | Some (TSeq xs) \<Rightarrow>
          (case xs of
             h # p # _ \<Rightarrow> assign (\<lambda>c. c\<lparr>host := h, port := p, socket_path := None\<rparr>)
           | _ \<Rightarrow> io_raise IndexError)
      | Some TOther \<Rightarrow> io_return ())"

definition target_address :: "client \<Rightarrow> world \<Rightarrow> address" where
  "target_address c w =
     (if py_truthy (host c) \<and> py_truthy (port c) then AF_INET (host c) (port c)
      else AF_UNIX (expanduser w (if str_truthy (socket_path c) then or_empty (socket_path c)
                                  else DEFAULT_SOCKET)))"

text \<open>\<^verbatim>\<open>self._sock = socket.socket(...)\<close>\<close>

definition new_socket :: "nat io" where
  "new_socket s = (case sock_new (snd s) of (i, w') \<Rightarrow> (Inr i, ((fst s)\<lparr>sock := Some i\<rparr>, w')))"

definition connect :: "libs \<Rightarrow> target option \<Rightarrow> unit io" where
  "connect L t =
     io_bind (set_target t) (\<lambda>_.
     io_bind get_client (\<lambda>c.
     io_bind get_world (\<lambda>w.
     io_bind new_socket (\<lambda>i.
     io_bind (on_world (sock_connect i (target_address c w))) (\<lambda>_.
     authenticate L)))))"

subsection \<open>Operations\<close>

text \<open>
  \<^verbatim>\<open>
  def retrieve(self, path: str, *, ttl: Optional[int] = None) -> str:
      params: Dict[str, Any] = {"session_id": self._session_id, "path": path}
      if ttl is not None:
          params["ttl"] = ttl
      r = self._call("retrieve", params)
      self._leases.append(r["lease_id"])
      return bytes.fromhex(r["value"]).decode("utf-8", errors="replace")

  def retrieve_raw(self, path: str, *, ttl: Optional[int] = None) -> dict:
      params: Dict[str, Any] = {"session_id": self._session_id, "path": path}
      if ttl is not None:
          params["ttl"] = ttl
      r = self._call("retrieve", params)
      self._leases.append(r["lease_id"])
      return r

  def list(self) -> list:
      r = self._call("list", {"session_id": self._session_id})
      return r.get("credentials", [])

  def release_lease(self, lease_id: str) -> None:
      self._call("release_lease", {"lease_id": lease_id})
      if lease_id in self._leases:
          self._leases.remove(lease_id)

  def use(self, path: str, operation: str, params: Optional[Dict[str, Any]] = None) -> dict:
      rpc_params: Dict[str, Any] = {
          "session_id": self._session_id,
          "path": path,
          "operation": operation,
      }
      if params:
          rpc_params["params"] = params
      return self._call("use", rpc_params)
  \<close>
\<close>

definition retrieve_params :: "client \<Rightarrow> string \<Rightarrow> int option \<Rightarrow> json" where
  "retrieve_params c path ttl =
     JObj ([(''session_id'', session_id c), (''path'', JStr path)]
           @ (case ttl of None \<Rightarrow> [] | Some t \<Rightarrow> [(''ttl'', JInt t)]))"

definition retrieve :: "libs \<Rightarrow> string \<Rightarrow> int option \<Rightarrow> nat list io" where
  "retrieve L path ttl =
     io_bind get_client (\<lambda>c.
     io_bind (call ''retrieve'' (retrieve_params c path ttl)) (\<lambda>r.
     io_bind (io_lift (subscript r ''lease_id'')) (\<lambda>lid.
     io_bind (assign (\<lambda>c. c\<lparr>leases := leases c @ [lid]\<rparr>)) (\<lambda>_.
     io_bind (io_lift (subscript r ''value'')) (\<lambda>v.
     io_bind (io_lift (fromhex_value v)) (\<lambda>b.
     io_return (utf8_decode_replace L b)))))))"

definition retrieve_raw :: "string \<Rightarrow> int option \<Rightarrow> json io" where
  "retrieve_raw path ttl =
     io_bind get_client (\<lambda>c.
     io_bind (call ''retrieve'' (retrieve_params c path ttl)) (\<lambda>r.
     io_bind (io_lift (subscript r ''lease_id'')) (\<lambda>lid.
     io_bind (assign (\<lambda>c. c\<lparr>leases := leases c @ [lid]\<rparr>)) (\<lambda>_.
     io_return r))))"

definition list :: "json io" where
  "list =
     io_bind get_client (\<lambda>c.
     io_bind (call ''list'' (JObj [(''session_id'', session_id c)])) (\<lambda>r.
     io_lift (py_get r ''credentials'' (JArr []))))"

definition release_lease :: "json \<Rightarrow> unit io" where
  "release_lease lease_id =
     io_bind (call ''release_lease'' (JObj [(''lease_id'', lease_id)])) (\<lambda>_.
     assign (\<lambda>c. if lease_id \<in> set (leases c) then c\<lparr>leases := remove1 lease_id (leases c)\<rparr>
                  else c))"

definition use :: "string \<Rightarrow> string \<Rightarrow> (string \<times> json) list option \<Rightarrow> json io" where
  "use path operation params =
     io_bind get_client (\<lambda>c.
     call ''use''
       (JObj ([(''session_id'', session_id c), (''path'', JStr path), (''operation'', JStr operation)]
              @ (case params of
                   None \<Rightarrow> []
                 | Some d \<Rightarrow> if d \<noteq> [] then [(''params'', JObj d)] else []))))"

text \<open>
  \<^verbatim>\<open>
  def close(self) -> None:
      for lid in list(self._leases):
          try:
              self.release_lease(lid)
          except VaultError:
              pass
      if self._sock:
          self._sock.close()
          self._sock = None
      self._session_id = None
  \<close>
  The loop runs over a copy of the list made before the first release.
\<close>

primrec release_all :: "json list \<Rightarrow> unit io" where
  "release_all [] = io_return ()"
| "release_all (lid # lids) =
     io_bind (except_vault_pass (release_lease lid)) (\<lambda>_. release_all lids)"

definition close :: "unit io" where
  "close =
     io_bind get_client (\<lambda>c.
     io_bind (release_all (leases c)) (\<lambda>_.
     io_bind get_client (\<lambda>c1.
     io_bind (case sock c1 of
                None \<Rightarrow> io_return ()
              | Some i \<Rightarrow>
                  io_bind (on_world (\<lambda>w. (Inr (), sock_close i w))) (\<lambda>_.
                  assign (\<lambda>c. c\<lparr>sock := None\<rparr>))) (\<lambda>_.
     assign (\<lambda>c. c\<lparr>session_id := JNull\<rparr>)))))"

subsection \<open>A caller\<close>

text \<open>
  The public methods as a caller invokes them one after the other on one client object,
  going on after an exception as a caller that catches it does.
\<close>

datatype api =
    Connect "target option"
  | Close
  | Retrieve string "int option"
  | RetrieveRaw string "int option"
  | ListCredentials
  | ReleaseLease json
  | Use string string "(string \<times> json) list option"

fun perform :: "libs \<Rightarrow> api \<Rightarrow> session \<Rightarrow> session" where
  "perform L (Connect t) s = snd (connect L t s)"
| "perform L Close s = snd (close s)"
| "perform L (Retrieve p t) s = snd (retrieve L p t s)"
| "perform L (RetrieveRaw p t) s = snd (retrieve_raw p t s)"
| "perform L ListCredentials s = snd (list s)"
| "perform L (ReleaseLease l) s = snd (release_lease l s)"
| "perform L (Use p operation d) s = snd (use p operation d s)"

fun perform_all :: "libs \<Rightarrow> api list \<Rightarrow> session \<Rightarrow> session" where
  "perform_all L [] s = s"
| "perform_all L (a # as) s = perform_all L as (perform L a s)"

section \<open>Notions used in the statements and proofs\<close>

text \<open>A frame as it lies on the wire: the length prefix and the compact JSON text.\<close>

definition frame_bytes :: "json \<Rightarrow> bytes" where
  "frame_bytes v = be32 (length (json_dumps v)) @ json_dumps v"

text \<open>What may follow a value inside a document, and what a value may start with.\<close>

definition at_delim :: "string \<Rightarrow> bool" where
  "at_delim r \<longleftrightarrow> r = [] \<or> hd r = CHR '','' \<or> hd r = CHR '']'' \<or> hd r = CHR ''}''"

definition val_start :: "char \<Rightarrow> bool" where
  "val_start c \<longleftrightarrow> \<not> is_ws c \<and> c \<noteq> CHR '']'' \<and> c \<noteq> CHR ''}'' \<and> c \<noteq> CHR '',''"

text \<open>
  Relations between the world before and after a socket operation: \<open>inbox_step i\<close> says
  that at most the pieces still to be delivered on socket \<open>i\<close> have changed;
  \<open>only_sock i\<close> that nothing outside socket \<open>i\<close> has changed and that no socket has
  been opened, closed or connected.
\<close>

definition inbox_step :: "nat \<Rightarrow> world \<Rightarrow> world \<Rightarrow> bool" where
  "inbox_step i w w' \<longleftrightarrow>
     w' = w \<or> (\<exists>evs. i < length (socks w) \<and> w' = sock_put i ((socks w ! i)\<lparr>sk_inbox := evs\<rparr>) w)"

definition only_sock :: "nat \<Rightarrow> world \<Rightarrow> world \<Rightarrow> bool" where
  "only_sock i w w' \<longleftrightarrow>
     length (socks w') = length (socks w) \<and> pending w' = pending w \<and> files w' = files w
     \<and> home w' = home w
     \<and> (\<forall>j < length (socks w).
           sk_open (socks w' ! j) = sk_open (socks w ! j)
           \<and> sk_peer (socks w' ! j) = sk_peer (socks w ! j)
           \<and> (j \<noteq> i \<longrightarrow> socks w' ! j = socks w ! j))"

text \<open>
  A relation between the state before and after that a statement keeps, whether it
  returns or raises; the two relations used below: the request counter never goes down,
  and an RPC leaves the socket reference alone and touches at most that socket.
\<close>

definition preserves :: "(session \<Rightarrow> session \<Rightarrow> bool) \<Rightarrow> 'a io \<Rightarrow> bool" where
  "preserves R m \<longleftrightarrow> (\<forall>s. R s (snd (m s)))"

definition req_mono :: "session \<Rightarrow> session \<Rightarrow> bool" where
  "req_mono s s' \<longleftrightarrow> req_id (fst s) \<le> req_id (fst s')"

definition rpc_frame :: "session \<Rightarrow> session \<Rightarrow> bool" where
  "rpc_frame s s' \<longleftrightarrow>
     sock (fst s') = sock (fst s)
     \<and> (case sock (fst s) of
          None \<Rightarrow> snd s' = snd s
        | Some i \<Rightarrow> only_sock i (snd s) (snd s'))"


section \<open>Concrete inputs\<close>

definition denied_response :: json where
  "denied_response =
     JObj [(''id'', JInt 1),
           (''error'', JObj [(''code'', JStr ''ACCESS_DENIED''), (''message'', JStr ''not allowed''),
                             (''detail'', JStr ''policy forbids''), (''suggestion'', JStr ''ask admin'')])]"

definition long_text :: "nat \<Rightarrow> string" where
  "long_text n = replicate n (CHR ''a'')"

definition one_member :: "nat \<Rightarrow> json" where
  "one_member n = JObj [(''k'', JStr (long_text n))]"

definition inbound :: "recv_event list \<Rightarrow> sock_state" where
  "inbound evs = \<lparr>sk_open = True, sk_peer = Some (AF_UNIX ''/run/vault.sock''), sk_inbox = evs,
                  sk_sends = 8, sk_outbox = []\<rparr>"

definition one_socket :: "recv_event list \<Rightarrow> world" where
  "one_socket evs = \<lparr>socks = [inbound evs], pending = [], files = [], home = ''/home/agent''\<rparr>"

definition demo_libs :: libs where
  "demo_libs =
     \<lparr>ed25519_sign = (\<lambda>seed msg. take 32 (msg @ seed) @ take 32 (seed @ msg)),
      pbkdf2_hmac_sha256 = (\<lambda>password salt. take 32 (salt @ password @ replicate 32 (CHR ''k''))),
      secretbox_decrypt = (\<lambda>key nonce ct. None),
      utf8_decode_replace = map of_char\<rparr>"

definition key_hex :: string where
  "key_hex = ''000102030405060708090a0b0c0d0e0f101112131415161718191a1b1c1d1e1f''"

definition key_files :: "(string \<times> string) list" where
  "key_files =
     [(''/k'', key_hex @ [CHR 0x0A]),
      (''/short'', ''00010203 04050607 08090a0b 0c0d0e0f''),
      (''/bad'', ''zz''),
      (''/home/agent/.sanctum/keys/agent.key.enc'', key_hex @ key_hex)]"

definition key_world :: world where
  "key_world = \<lparr>socks = [], pending = [], files = key_files, home = ''/home/agent''\<rparr>"

definition agent_with_key :: "string option \<Rightarrow> string option \<Rightarrow> client" where
  "agent_with_key kpath pass = client_init ''agent'' None None None kpath pass"

text \<open>
  A client that has connected and authenticated on socket 0, with the leases it tracks, and
  the peer's replies still to arrive, one piece for each frame.
\<close>

definition reply :: "json \<Rightarrow> recv_event" where
  "reply v = Data (frame_bytes v)"

definition result_of :: "int \<Rightarrow> (string \<times> json) list \<Rightarrow> json" where
  "result_of rid d = JObj [(''id'', JInt rid), (''result'', JObj d)]"

definition error_of :: "int \<Rightarrow> string \<Rightarrow> string \<Rightarrow> json" where
  "error_of rid c msg = JObj [(''id'', JInt rid), (''error'', JObj [(''code'', JStr c), (''message'', JStr msg)])]"

definition live_client :: "json list \<Rightarrow> client" where
  "live_client ls =
     (agent_with_key (Some ''/k'') None)\<lparr>sock := Some 0, session_id := JStr ''S1'', req_id := 2,
                                          leases := ls\<rparr>"

definition live :: "json list \<Rightarrow> recv_event list \<Rightarrow> session" where
  "live ls evs = (live_client ls, (one_socket evs)\<lparr>files := key_files\<rparr>)"

definition lease_reply :: "int \<Rightarrow> string \<Rightarrow> json" where
  "lease_reply rid l = result_of rid [(''lease_id'', JStr l), (''value'', JStr ''6869''), (''ttl'', JInt 300)]"




definition challenge_reply :: "int \<Rightarrow> json" where
  "challenge_reply rid = result_of rid [(''session_id'', JStr ''S1''), (''challenge'', JStr ''c0ffee'')]"

definition verdict_reply :: "int \<Rightarrow> bool \<Rightarrow> json" where
  "verdict_reply rid b = result_of rid [(''authenticated'', JBool b)]"

definition agent :: client where
  "agent = agent_with_key (Some ''/k'') None"

definition vault_at :: "conn_script list \<Rightarrow> world" where
  "vault_at ps = \<lparr>socks = [], pending = ps, files = key_files, home = ''/home/agent''\<rparr>"

definition refusing_vault :: world where
  "refusing_vault = vault_at [Accept [reply (challenge_reply 1), reply (verdict_reply 2 False)] 8]"

definition unknown_agent_vault :: world where
  "unknown_agent_vault = vault_at [Accept [reply (error_of 1 ''AUTH_FAILED'' ''unknown agent'')] 8]"


definition two_connections :: session where
  "two_connections =
     perform_all demo_libs [Connect None, Close, Connect None]
       (agent, vault_at [Accept [reply (challenge_reply 1), reply (verdict_reply 2 True)] 8,
                         Accept [reply (challenge_reply 3), reply (verdict_reply 4 True)] 8])"

definition first_sent :: "nat \<Rightarrow> session \<Rightarrow> exn + json" where
  "first_sent i s = map_sum id fst (decode_frame (sk_outbox (socks (snd s) ! i)))"

section \<open>The JSON codec round-trips\<close>

lemma hexval_hex_digit: "k < 16 \<Longrightarrow> hexval (hex_digit k) = Some k"
proof -
  assume "k < 16"
  then have "k = 0 \<or> k = 1 \<or> k = 2 \<or> k = 3 \<or> k = 4 \<or> k = 5 \<or> k = 6 \<or> k = 7 \<or> k = 8
      \<or> k = 9 \<or> k = 10 \<or> k = 11 \<or> k = 12 \<or> k = 13 \<or> k = 14 \<or> k = 15" by arith
  then show ?thesis by (auto simp: hexval_def hex_digit_def)
qed

lemma of_char_lt_256: "(of_char c :: nat) < 256"
  by (cases c) (simp add: of_char_def horner_sum_eq_sum)

lemma cons_fst_simps [simp]:
  "cons_fst x None = None"
  "cons_fst x (Some (xs, r)) = Some (x # xs, r)"
  by (simp_all add: cons_fst_def)

lemma parse_string_esc:
  "parse_string (esc_char c @ r) = cons_fst c (parse_string r)"
proof -
  have d: "(of_char c :: nat) div 16 < 16" using of_char_lt_256 [of c] by arith
  have m: "(of_char c :: nat) mod 16 < 16" by simp
  have cb: "char_of (16 * ((of_char c :: nat) div 16) + (of_char c :: nat) mod 16) = c"
    by simp
  have z: "hexval (CHR ''0'') = Some 0" by (simp add: hexval_def)
  consider (q) "c = CHR 0x22" | (b) "c = CHR 0x5C" | (n) "c = CHR 0x0A" | (r) "c = CHR 0x0D"
    | (t) "c = CHR 0x09" | (bs) "c = CHR 0x08" | (ff) "c = CHR 0x0C"
    | (plain) "c \<noteq> CHR 0x22" "c \<noteq> CHR 0x5C" "32 \<le> (of_char c :: nat)" "(of_char c :: nat) \<le> 126"
    | (uni) "c \<noteq> CHR 0x22" "c \<noteq> CHR 0x5C" "c \<noteq> CHR 0x0A" "c \<noteq> CHR 0x0D" "c \<noteq> CHR 0x09"
        "c \<noteq> CHR 0x08" "c \<noteq> CHR 0x0C" "\<not> (32 \<le> (of_char c :: nat) \<and> (of_char c :: nat) \<le> 126)"
    by blast
  then show ?thesis
  proof cases
    case plain
    then show ?thesis by (auto simp: esc_char_def)
  next
    case uni
    then show ?thesis
      using hexval_hex_digit [OF d] hexval_hex_digit [OF m] cb z
      by (simp add: esc_char_def)
  qed (simp_all add: esc_char_def unescape_def)
qed

lemma parse_string_quote:
  "parse_string (concat (map esc_char s) @ CHR 0x22 # r) = Some (s, r)"
  by (induction s) (simp_all add: parse_string_esc del: parse_string.simps, simp)

lemma parse_string_py_quote: "parse_string (tl (py_quote s @ r)) = Some (s, r)"
  by (simp add: py_quote_def parse_string_quote)

lemma dec_digit: "d < 10 \<Longrightarrow> (of_char (''0123456789'' ! d) :: nat) = 48 + d"
proof -
  assume "d < 10"
  then have "d = 0 \<or> d = 1 \<or> d = 2 \<or> d = 3 \<or> d = 4 \<or> d = 5 \<or> d = 6 \<or> d = 7 \<or> d = 8 \<or> d = 9"
    by arith
  then show ?thesis by auto
qed

lemma show_nat_nonempty: "show_nat n \<noteq> []"
  by (subst show_nat.simps) simp

lemma show_nat_digits: "c \<in> set (show_nat n) \<Longrightarrow> is_digit c"
proof (induction n rule: show_nat.induct)
  case (1 n)
  show ?case
  proof (cases "n < 10")
    case True
    with "1.prems" show ?thesis
      by (subst (asm) show_nat.simps) (simp add: is_digit_def dec_digit)
  next
    case False
    have "n mod 10 < 10" by simp
    then have "is_digit (''0123456789'' ! (n mod 10))"
      unfolding is_digit_def by (simp only: dec_digit) simp
    with False "1.prems" "1.IH" show ?thesis
      by (subst (asm) show_nat.simps) auto
  qed
qed

lemma digits_val_snoc: "digits_val (ds @ [c]) = 10 * digits_val ds + ((of_char c :: nat) - 48)"
  by (simp add: digits_val_def)

lemma digits_val_show_nat: "digits_val (show_nat n) = n"
proof (induction n rule: show_nat.induct)
  case (1 n)
  show ?case
  proof (cases "n < 10")
    case True
    then show ?thesis
      by (subst show_nat.simps) (simp add: digits_val_def dec_digit)
  next
    case False
    have "n mod 10 < 10" by simp
    then have "(of_char (''0123456789'' ! (n mod 10)) :: nat) = 48 + n mod 10"
      by (rule dec_digit)
    with False "1.IH" show ?thesis
      by (subst show_nat.simps) (simp add: digits_val_snoc)
  qed
qed

lemma show_nat_hd: "0 < n \<Longrightarrow> hd (show_nat n) \<noteq> CHR ''0''"
proof (induction n rule: show_nat.induct)
  case (1 n)
  show ?case
  proof (cases "n < 10")
    case True
    then have "hd (show_nat n) = ''0123456789'' ! n"
      by (subst show_nat.simps) simp
    with True have "(of_char (hd (show_nat n)) :: nat) = 48 + n"
      by (simp only: dec_digit)
    with "1.prems" show ?thesis by auto
  next
    case False
    then have "0 < n div 10" by simp
    with False "1.IH" have "hd (show_nat (n div 10)) \<noteq> CHR ''0''" by simp
    with False show ?thesis
      by (subst show_nat.simps) (simp add: show_nat_nonempty)
  qed
qed

lemma show_nat_zero: "show_nat 0 = ''0''"
  by (subst show_nat.simps) simp

lemma show_nat_no_leading_zero: "hd (show_nat n) = CHR ''0'' \<Longrightarrow> length (show_nat n) = 1"
  using show_nat_hd [of n] by (cases "n = 0") (auto simp: show_nat_zero)

lemma at_delim_not_digit: "at_delim r \<Longrightarrow> r \<noteq> [] \<Longrightarrow> \<not> is_digit (hd r)"
  by (auto simp: at_delim_def is_digit_def)

lemma takeWhile_show_nat: "at_delim r \<Longrightarrow> takeWhile is_digit (show_nat n @ r) = show_nat n"
  using at_delim_not_digit [of r]
  by (cases r) (auto simp: takeWhile_append show_nat_digits)

lemma dropWhile_show_nat: "at_delim r \<Longrightarrow> dropWhile is_digit (show_nat n @ r) = r"
  using at_delim_not_digit [of r]
  by (cases r) (auto simp: dropWhile_append show_nat_digits)

lemma show_nat_not_minus: "hd (show_nat n) \<noteq> CHR ''-''"
  using show_nat_digits [of "hd (show_nat n)" n] show_nat_nonempty [of n]
  by (auto simp: is_digit_def)

lemma parse_number_show_int:
  assumes "at_delim r"
  shows "parse_number (show_int i @ r) = Some (JInt i, r)"
proof (cases "i < 0")
  case True
  then show ?thesis
    using assms show_nat_no_leading_zero [of "nat (- i)"]
    by (auto simp: parse_number_def show_int_def takeWhile_show_nat dropWhile_show_nat
        show_nat_nonempty digits_val_show_nat at_delim_def Let_def)
next
  case False
  then show ?thesis
    using assms show_nat_no_leading_zero [of "nat i"] show_nat_not_minus [of "nat i"]
    by (auto simp: parse_number_def show_int_def takeWhile_show_nat dropWhile_show_nat
        show_nat_nonempty digits_val_show_nat at_delim_def Let_def)
qed

lemma show_int_start:
  "show_int i \<noteq> [] \<and> (is_digit (hd (show_int i)) \<or> hd (show_int i) = CHR ''-'')"
  using show_nat_nonempty show_nat_digits [OF hd_in_set]
  by (simp add: show_int_def)

lemma dumps_start: "json_dumps v \<noteq> [] \<and> val_start (hd (json_dumps v))"
proof (cases v)
  case (JInt i)
  then show ?thesis
    using show_int_start [of i] by (auto simp: val_start_def is_ws_def is_digit_def)
qed (auto simp: val_start_def is_ws_def py_quote_def)

lemma skip_ws_keep: "s \<noteq> [] \<Longrightarrow> \<not> is_ws (hd s) \<Longrightarrow> skip_ws s = s"
  by (cases s) (simp_all add: skip_ws_def)

lemma skip_ws_dumps: "skip_ws (json_dumps v @ r) = json_dumps v @ r"
  using dumps_start [of v] by (intro skip_ws_keep) (auto simp: val_start_def)

lemma skip_ws_quote: "skip_ws (py_quote k @ r) = py_quote k @ r"
  by (simp add: py_quote_def skip_ws_def is_ws_def)

lemma skip_ws_nil: "skip_ws [] = []"
  by (simp add: skip_ws_def)

lemma dumps_length_pos: "0 < length (json_dumps v)"
  using dumps_start [of v] by simp

lemma quote_hd: "py_quote k @ r \<noteq> [] \<and> hd (py_quote k @ r) = CHR 0x22"
  by (simp add: py_quote_def)

lemma elems_roundtrip:
  assumes IH: "\<And>x f r. x \<in> set xs \<Longrightarrow> length (json_dumps x) < f \<Longrightarrow> at_delim r
                 \<Longrightarrow> parse_value f (json_dumps x @ r) = Some (x, r)"
    and "xs \<noteq> []" and "length (dumps_elems xs) + 1 < f"
  shows "parse_elems f (dumps_elems xs @ CHR '']'' # r) = Some (xs, r)"
  using assms
proof (induction xs arbitrary: f)
  case Nil
  then show ?case by simp
next
  case (Cons x xs)
  from Cons.prems(3) obtain f' where f: "f = Suc f'" by (cases f) auto
  have bracket: "skip_ws (CHR '']'' # t) = CHR '']'' # t" for t
    by (simp add: skip_ws_def is_ws_def)
  have comma: "skip_ws (CHR '','' # t) = CHR '','' # t" for t
    by (simp add: skip_ws_def is_ws_def)
  show ?case
  proof (cases "xs = []")
    case True
    with Cons.prems(3) f have "length (json_dumps x) < f'" by simp
    then have "parse_value f' (json_dumps x @ CHR '']'' # r) = Some (x, CHR '']'' # r)"
      using Cons.prems(1) [of x f' "CHR '']'' # r"] by (simp add: at_delim_def)
    with True f show ?thesis by (simp add: bracket)
  next
    case False
    then obtain y ys where xs: "xs = y # ys" by (cases xs) auto
    let ?tail = "dumps_elems (y # ys) @ CHR '']'' # r"
    from xs Cons.prems(3) f have l1: "length (json_dumps x) < f'" by simp
    from xs Cons.prems(3) f dumps_length_pos [of x]
    have l2: "length (dumps_elems xs) + 1 < f'" by simp
    have v: "parse_value f' (json_dumps x @ CHR '','' # ?tail) = Some (x, CHR '','' # ?tail)"
      using Cons.prems(1) [of x f' "CHR '','' # ?tail"] l1 by (simp add: at_delim_def)
    have "parse_elems f' (dumps_elems xs @ CHR '']'' # r) = Some (xs, r)"
    proof (rule Cons.IH)
      show "xs \<noteq> []" by (rule False)
      show "length (dumps_elems xs) + 1 < f'" by (rule l2)
    next
      fix z g t
      assume "z \<in> set xs" "length (json_dumps z) < g" "at_delim t"
      then show "parse_value g (json_dumps z @ t) = Some (z, t)"
        using Cons.prems(1) [of z g t] by simp
    qed
    then have rec: "parse_elems f' ?tail = Some (y # ys, r)"
      using xs by simp
    have sk: "skip_ws ?tail = ?tail"
      using dumps_start [of y] by (cases ys) (simp_all add: skip_ws_keep val_start_def)
    show ?thesis
      using f xs v rec sk by (simp add: comma)
  qed
qed

lemma members_roundtrip:
  assumes IH: "\<And>k x f r. (k, x) \<in> set ms \<Longrightarrow> length (json_dumps x) < f \<Longrightarrow> at_delim r
                 \<Longrightarrow> parse_value f (json_dumps x @ r) = Some (x, r)"
    and "ms \<noteq> []" and "length (dumps_members ms) + 1 < f"
  shows "parse_members f (dumps_members ms @ CHR ''}'' # r) = Some (ms, r)"
  using assms
proof (induction ms arbitrary: f)
  case Nil
  then show ?case by simp
next
  case (Cons m ms)
  obtain k x where m: "m = (k, x)" by (cases m)
  from Cons.prems(3) obtain f' where f: "f = Suc f'" by (cases f) auto
  have colon: "skip_ws (CHR '':'' # t) = CHR '':'' # t" for t
    by (simp add: skip_ws_def is_ws_def)
  have comma: "skip_ws (CHR '','' # t) = CHR '','' # t" for t
    by (simp add: skip_ws_def is_ws_def)
  have brace: "skip_ws (CHR ''}'' # t) = CHR ''}'' # t" for t
    by (simp add: skip_ws_def is_ws_def)
  have key: "parse_string (tl (py_quote k @ t)) = Some (k, t)" for t
    by (rule parse_string_py_quote)
  show ?case
  proof (cases "ms = []")
    case True
    with Cons.prems(3) f m have "length (json_dumps x) < f'" by simp
    then have "parse_value f' (json_dumps x @ CHR ''}'' # r) = Some (x, CHR ''}'' # r)"
      using Cons.prems(1) [of k x f' "CHR ''}'' # r"] m by (simp add: at_delim_def)
    with True f m show ?thesis
      using quote_hd [of k "CHR '':'' # json_dumps x @ CHR ''}'' # r"]
      by (simp add: key colon brace skip_ws_dumps)
  next
    case False
    then obtain m' ms' where ms: "ms = m' # ms'" by (cases ms) auto
    obtain k' x' where m': "m' = (k', x')" by (cases m')
    let ?tail = "dumps_members (m' # ms') @ CHR ''}'' # r"
    let ?rest = "CHR '','' # ?tail"
    from ms Cons.prems(3) f m have l1: "length (json_dumps x) < f'" by simp
    from ms Cons.prems(3) f m
    have l2: "length (dumps_members (m' # ms')) + 1 < f'" by (simp add: py_quote_def)
    have v: "parse_value f' (json_dumps x @ ?rest) = Some (x, ?rest)"
      using Cons.prems(1) [of k x f' ?rest] l1 m by (simp add: at_delim_def)
    have rec: "parse_members f' ?tail = Some (m' # ms', r)"
    proof -
      have "parse_members f' (dumps_members ms @ CHR ''}'' # r) = Some (ms, r)"
      proof (rule Cons.IH)
        show "ms \<noteq> []" by (rule False)
        show "length (dumps_members ms) + 1 < f'" using l2 ms by simp
      next
        fix j z g t
        assume "(j, z) \<in> set ms" "length (json_dumps z) < g" "at_delim t"
        then show "parse_value g (json_dumps z @ t) = Some (z, t)"
          using Cons.prems(1) [of j z g t] by simp
      qed
      with ms show ?thesis by simp
    qed
    have sk: "skip_ws ?tail = ?tail"
      using m' by (cases ms') (simp_all add: skip_ws_quote)
    have "dumps_members (m # ms) @ CHR ''}'' # r = py_quote k @ CHR '':'' # json_dumps x @ ?rest"
      using ms m m' by simp
    then show ?thesis
      using f quote_hd [of k "CHR '':'' # json_dumps x @ ?rest"] v rec sk m ms
      by (simp add: key colon comma skip_ws_dumps del: json_dumps.simps)
  qed
qed

lemma dict_set_fresh: "k \<notin> fst ` set d \<Longrightarrow> dict_set d k v = d @ [(k, v)]"
  by (induction d) auto

lemma foldl_dict_set_distinct:
  "distinct (map fst ps) \<Longrightarrow> fst ` set d \<inter> fst ` set ps = {}
     \<Longrightarrow> foldl (\<lambda>d (k, v). dict_set d k v) d ps = d @ ps"
proof (induction ps arbitrary: d)
  case Nil
  then show ?case by simp
next
  case (Cons p ps)
  obtain k v where p: "p = (k, v)" by (cases p)
  with Cons.prems have "dict_set d k v = d @ [(k, v)]"
    by (intro dict_set_fresh) auto
  moreover from Cons.prems p have "fst ` set (d @ [(k, v)]) \<inter> fst ` set ps = {}"
    by auto
  moreover from Cons.prems have "distinct (map fst ps)" by simp
  ultimately show ?case
    using Cons.IH [of "d @ [(k, v)]"] p by simp
qed

lemma dict_of_pairs_distinct: "distinct (map fst ps) \<Longrightarrow> dict_of_pairs ps = ps"
  using foldl_dict_set_distinct [of ps "[]"] by (simp add: dict_of_pairs_def)

lemma parse_value_number:
  assumes "s \<noteq> []" and "is_digit (hd s) \<or> hd s = CHR ''-''"
  shows "parse_value (Suc f) s = parse_number s"
proof -
  obtain c cs where s: "s = c # cs" using assms(1) by (cases s) auto
  from assms(2) s have "c \<noteq> CHR 0x22" "c \<noteq> CHR ''[''" "c \<noteq> CHR ''{''" "c \<noteq> CHR ''n''"
    "c \<noteq> CHR ''t''" "c \<noteq> CHR ''f''"
    by (auto simp: is_digit_def)
  with s show ?thesis by (simp add: take_Cons')
qed

lemma parse_value_roundtrip:
  "wf_json v \<Longrightarrow> length (json_dumps v) < f \<Longrightarrow> at_delim r
     \<Longrightarrow> parse_value f (json_dumps v @ r) = Some (v, r)"
proof (induction v arbitrary: f r)
  case JNull
  then obtain f' where "f = Suc f'" by (cases f) auto
  then show ?case by simp
next
  case (JBool b)
  then obtain f' where "f = Suc f'" by (cases f) auto
  then show ?case by simp
next
  case (JInt i)
  then obtain f' where f: "f = Suc f'" by (cases f) auto
  have "parse_value (Suc f') (show_int i @ r) = parse_number (show_int i @ r)"
    using show_int_start [of i] by (intro parse_value_number) auto
  with f show ?case
    using parse_number_show_int [OF JInt.prems(3), of i] by simp
next
  case (JStr s)
  then obtain f' where "f = Suc f'" by (cases f) auto
  then show ?case
    using quote_hd [of s r] by (simp add: parse_string_py_quote)
next
  case (JArr xs)
  then obtain f' where f: "f = Suc f'" by (cases f) auto
  show ?case
  proof (cases "xs = []")
    case True
    with f show ?thesis by (simp add: skip_ws_def is_ws_def)
  next
    case False
    then obtain y ys where xs: "xs = y # ys" by (cases xs) auto
    let ?body = "dumps_elems xs @ CHR '']'' # r"
    have p: "parse_elems f' ?body = Some (xs, r)"
    proof (rule elems_roundtrip)
      show "xs \<noteq> []" by (rule False)
      show "length (dumps_elems xs) + 1 < f'" using JArr.prems(2) f by simp
    next
      fix x g t
      assume "x \<in> set xs" "length (json_dumps x) < g" "at_delim t"
      then show "parse_value g (json_dumps x @ t) = Some (x, t)"
        using JArr.IH [of x g t] JArr.prems(1) by simp
    qed
    have "?body \<noteq> [] \<and> val_start (hd ?body)"
      using dumps_start [of y] xs by (cases ys) simp_all
    then have "skip_ws ?body = ?body" "hd ?body \<noteq> CHR '']''"
      by (simp_all add: skip_ws_keep val_start_def)
    with p f show ?thesis by simp
  qed
next
  case (JObj ms)
  then obtain f' where f: "f = Suc f'" by (cases f) auto
  show ?case
  proof (cases "ms = []")
    case True
    with f show ?thesis by (simp add: skip_ws_def is_ws_def dict_of_pairs_def)
  next
    case False
    then obtain m ms' where ms: "ms = m # ms'" by (cases ms) auto
    obtain k x where m: "m = (k, x)" by (cases m)
    let ?body = "dumps_members ms @ CHR ''}'' # r"
    have p: "parse_members f' ?body = Some (ms, r)"
    proof (rule members_roundtrip)
      show "ms \<noteq> []" by (rule False)
      show "length (dumps_members ms) + 1 < f'" using JObj.prems(2) f by simp
    next
      fix j z g t
      assume jz: "(j, z) \<in> set ms" and "length (json_dumps z) < g" "at_delim t"
      moreover from jz JObj.prems(1) have "wf_json z" by auto
      moreover from jz have "z \<in> Basic_BNFs.snds (j, z)" by simp
      ultimately show "parse_value g (json_dumps z @ t) = Some (z, t)"
        using JObj.IH [of "(j, z)" z g t] by simp
    qed
    have "?body \<noteq> [] \<and> hd ?body = CHR 0x22"
      using ms m by (cases ms') (simp_all add: py_quote_def)
    then have "skip_ws ?body = ?body" "hd ?body \<noteq> CHR ''}''"
      by (simp_all add: skip_ws_keep is_ws_def)
    moreover have "dict_of_pairs ms = ms"
      using JObj.prems(1) by (simp add: dict_of_pairs_distinct)
    ultimately show ?thesis using p f by simp
  qed
qed

lemma json_loads_dumps: "wf_json v \<Longrightarrow> json_loads (json_dumps v) = Inr v"
  using parse_value_roundtrip [of v "Suc (length (json_dumps v))" "[]"] skip_ws_dumps [of v "[]"]
  by (simp add: json_loads_def at_delim_def skip_ws_nil)

section \<open>Frames\<close>

lemma length_be32: "length (be32 n) = 4"
  by (simp add: be32_def)

lemma be32_sum:
  fixes n :: nat
  assumes "n < 4294967296"
  shows "n div 16777216 mod 256 * 16777216 + n div 65536 mod 256 * 65536
          + n div 256 mod 256 * 256 + n mod 256 = n"
proof -
  define x y z where "x = n div 256" and "y = n div 65536" and "z = n div 16777216"
  have zy: "z = y div 256" unfolding z_def y_def using div_mult2_eq [of n 65536 256] by simp
  have yx: "y = x div 256" unfolding y_def x_def using div_mult2_eq [of n 256 256] by simp
  have "z < 256" unfolding z_def using assms by simp
  then have a: "z mod 256 = z" by simp
  have b: "y = z * 256 + y mod 256" unfolding zy by simp
  have c: "x = y * 256 + x mod 256" unfolding yx by simp
  have d: "n = x * 256 + n mod 256" unfolding x_def by simp
  have "z mod 256 * 16777216 + y mod 256 * 65536 + x mod 256 * 256 + n mod 256 = n"
    using a b c d by linarith
  then show ?thesis by (simp only: x_def y_def z_def)
qed

lemma unpack_be32: "n < 4294967296 \<Longrightarrow> unpack_u32 (be32 n) = Inr n"
  using be32_sum [of n] by (simp add: unpack_u32_def be32_def)



lemma decode_frame_bytes:
  assumes "wf_json v" and "length (json_dumps v) < 4294967296"
  shows "decode_frame (frame_bytes v @ t) = Inr (v, t)"
proof -
  let ?n = "length (json_dumps v)"
  have "take 4 (frame_bytes v @ t) = be32 ?n"
    by (simp add: frame_bytes_def length_be32)
  moreover have "take ?n (drop 4 (frame_bytes v @ t)) = json_dumps v"
    by (simp add: frame_bytes_def length_be32)
  moreover have "drop (4 + ?n) (frame_bytes v @ t) = t"
    by (simp add: frame_bytes_def length_be32)
  moreover have "\<not> length (frame_bytes v @ t) < 4 + ?n" "\<not> length (frame_bytes v @ t) < 4"
    by (simp_all add: frame_bytes_def length_be32)
  ultimately show ?thesis
    using assms by (simp add: decode_frame_def unpack_be32 json_loads_dumps)
qed

lemma esc_char_a: "esc_char (CHR ''a'') = [CHR ''a'']"
  by (simp add: esc_char_def)

lemma escape_replicate_a: "concat (map esc_char (replicate n (CHR ''a''))) = replicate n (CHR ''a'')"
  by (induction n) (simp_all add: esc_char_a)

lemma length_dumps_one_member:
  "length (json_dumps (JObj [(''k'', JStr (replicate n (CHR ''a'')))])) = n + 8"
proof -
  have "py_quote ''k'' = [CHR 0x22, CHR ''k'', CHR 0x22]"
    by (simp add: py_quote_def esc_char_def)
  moreover have "py_quote (replicate n (CHR ''a'')) = CHR 0x22 # replicate n (CHR ''a'') @ [CHR 0x22]"
    by (simp only: py_quote_def escape_replicate_a)
  ultimately show ?thesis by simp
qed

section \<open>What the socket operations leave alone\<close>

lemma inbox_step_refl: "inbox_step i w w"
  by (simp add: inbox_step_def)

lemma sock_put_put: "sock_put i s (sock_put i t w) = sock_put i s w"
  by (simp add: sock_put_def)

lemma socks_sock_put: "socks (sock_put i s w) = (socks w)[i := s]"
  by (simp add: sock_put_def)

lemma sock_put_fields [simp]:
  "pending (sock_put i s w) = pending w"
  "files (sock_put i s w) = files w"
  "home (sock_put i s w) = home w"
  "length (socks (sock_put i s w)) = length (socks w)"
  by (simp_all add: sock_put_def)

lemma inbox_step_trans: "inbox_step i a b \<Longrightarrow> inbox_step i b c \<Longrightarrow> inbox_step i a c"
  unfolding inbox_step_def
  by (elim disjE exE conjE) (auto simp: sock_put_put socks_sock_put)

lemma inbox_step_only_sock: "inbox_step i w w' \<Longrightarrow> only_sock i w w'"
  unfolding inbox_step_def only_sock_def
  by (auto simp: socks_sock_put nth_list_update split: if_splits)

lemma inbox_step_outbox:
  "inbox_step i w w' \<Longrightarrow> j < length (socks w) \<Longrightarrow>
     sk_outbox (socks w' ! j) = sk_outbox (socks w ! j) \<and> sk_sends (socks w' ! j) = sk_sends (socks w ! j)"
  unfolding inbox_step_def
  by (auto simp: socks_sock_put nth_list_update)

lemma only_sock_refl: "only_sock i w w"
  by (simp add: only_sock_def)

lemma only_sock_trans: "only_sock i a b \<Longrightarrow> only_sock i b c \<Longrightarrow> only_sock i a c"
  unfolding only_sock_def by auto

lemma sock_recv_step: "inbox_step i w (snd (sock_recv i k w))"
  by (auto simp: sock_recv_def inbox_step_def usable_def split: list.splits recv_event.splits)

lemma read_exact_step: "inbox_step i w (snd (read_exact i n buf w))"
proof (induction i n buf w rule: read_exact.induct)
  case (1 i n buf w)
  show ?case
  proof (cases "length buf < n")
    case False
    then show ?thesis by (subst read_exact.simps) (simp add: inbox_step_refl)
  next
    case True
    obtain r w1 where rv: "sock_recv i (n - length buf) w = (r, w1)" by (cases "sock_recv i (n - length buf) w")
    have s1: "inbox_step i w w1" using sock_recv_step [of i w "n - length buf"] rv by simp
    show ?thesis
    proof (cases r)
      case (Inl e)
      with True rv s1 show ?thesis by (subst read_exact.simps) simp
    next
      case (Inr chunk)
      show ?thesis
      proof (cases "chunk = []")
        case True
        with \<open>length buf < n\<close> Inr rv s1 show ?thesis by (subst read_exact.simps) simp
      next
        case False
        with \<open>length buf < n\<close> Inr rv have "inbox_step i w1 (snd (read_exact i n (buf @ chunk) w1))"
          using "1.IH" by auto
        with s1 have "inbox_step i w (snd (read_exact i n (buf @ chunk) w1))"
          by (rule inbox_step_trans)
        with False \<open>length buf < n\<close> Inr rv show ?thesis by (subst read_exact.simps) simp
      qed
    qed
  qed
qed

lemma read_exact_stepD: "read_exact i n buf w = (r, w') \<Longrightarrow> inbox_step i w w'"
  using read_exact_step [of i w n buf] by simp

lemma recv_step: "inbox_step i w (snd (recv i w))"
proof -
  obtain r1 w1 where h: "read_exact i 4 [] w = (r1, w1)" by (cases "read_exact i 4 [] w")
  then have s1: "inbox_step i w w1" by (rule read_exact_stepD)
  show ?thesis
  proof (cases r1)
    case (Inl e)
    with h s1 show ?thesis by (simp add: recv_def)
  next
    case (Inr header)
    show ?thesis
    proof (cases "unpack_u32 header")
      case (Inl e)
      with h Inr s1 show ?thesis by (simp add: recv_def)
    next
      case n: (Inr n)
      obtain r2 w2 where b: "read_exact i n [] w1 = (r2, w2)" by (cases "read_exact i n [] w1")
      then have "inbox_step i w1 w2" by (rule read_exact_stepD)
      with s1 have "inbox_step i w w2" by (rule inbox_step_trans)
      with h Inr n b s1 show ?thesis
        by (simp add: recv_def split: sum.splits)
    qed
  qed
qed

lemma sock_sendall_only: "only_sock i w (snd (sock_sendall i d w))"
  by (auto simp: sock_sendall_def only_sock_def socks_sock_put nth_list_update usable_def)

lemma send_only: "only_sock i w (snd (send i obj w))"
  using sock_sendall_only [of i w]
  by (auto simp: send_def only_sock_refl split: sum.splits)

lemma send_fits:
  assumes "usable i w" and "0 < sk_sends (socks w ! i)" and "length (json_dumps obj) < 4294967296"
  shows "send i obj w =
           (Inr (), sock_put i ((socks w ! i)\<lparr>sk_sends := sk_sends (socks w ! i) - 1,
                                          sk_outbox := sk_outbox (socks w ! i) @ frame_bytes obj\<rparr>) w)"
  using assms by (simp add: send_def pack_u32_def sock_sendall_def frame_bytes_def)

lemmas io_defs = io_bind_def io_return_def io_raise_def io_lift_def on_world_def get_client_def
  get_world_def assign_def

lemma call_unconnected:
  "sock c = None \<Longrightarrow>
     call m p (c, w) = (Inl (vault_coded VaultError ''Not connected'' ''INTERNAL_ERROR''), (c, w))"
  by (simp add: call_def io_defs)

lemma call_connected:
  assumes "sock c = Some i"
  shows "call m p (c, w) =
     (case send i (request (req_id c + 1) m p) w of
        (Inl e, w1) \<Rightarrow> (Inl e, (c\<lparr>req_id := req_id c + 1\<rparr>, w1))
      | (Inr u, w1) \<Rightarrow>
          (case recv i w1 of
             (Inl e, w2) \<Rightarrow> (Inl e, (c\<lparr>req_id := req_id c + 1\<rparr>, w2))
           | (Inr resp, w2) \<Rightarrow>
               (case raise_on_error resp of
                  Inl e \<Rightarrow> (Inl e, (c\<lparr>req_id := req_id c + 1\<rparr>, w2))
                | Inr u \<Rightarrow> (py_get resp ''result'' (JObj []), (c\<lparr>req_id := req_id c + 1\<rparr>, w2)))))"
  using assms
  by (simp add: call_def io_defs next_id_def split: prod.splits sum.splits)

lemma call_client:
  assumes "call m p (c, w) = (r, (c', w'))"
  shows "c' = c\<lparr>req_id := req_id c'\<rparr> \<and> (sock c \<noteq> None \<longrightarrow> req_id c' = req_id c + 1)
         \<and> (sock c = None \<longrightarrow> c' = c \<and> w' = w)"
proof (cases "sock c")
  case None
  with assms show ?thesis by (simp add: call_unconnected)
next
  case (Some i)
  with assms show ?thesis
    by (auto simp: call_connected split: prod.splits sum.splits)
qed

lemma call_world:
  assumes "sock c = Some i" and "call m p (c, w) = (r, (c', w'))"
  shows "only_sock i w w'"
proof -
  obtain r1 w1 where s: "send i (request (req_id c + 1) m p) w = (r1, w1)"
    by (cases "send i (request (req_id c + 1) m p) w")
  then have a: "only_sock i w w1"
    using send_only [of i w "request (req_id c + 1) m p"] by simp
  obtain r2 w2 where v: "recv i w1 = (r2, w2)" by (cases "recv i w1")
  then have "only_sock i w1 w2" using recv_step [of i w1] by (simp add: inbox_step_only_sock)
  with a have b: "only_sock i w w2" by (rule only_sock_trans)
  show ?thesis
    using assms s v a b by (auto simp: call_connected split: sum.splits)
qed

lemma call_outbox:
  assumes "sock c = Some i" and "usable i w" and "0 < sk_sends (socks w ! i)"
    and "length (json_dumps (request (req_id c + 1) m p)) < 4294967296"
    and "call m p (c, w) = (r, (c', w'))"
  shows "sk_outbox (socks w' ! i) = sk_outbox (socks w ! i) @ frame_bytes (request (req_id c + 1) m p)"
proof -
  let ?w1 = "sock_put i ((socks w ! i)\<lparr>sk_sends := sk_sends (socks w ! i) - 1,
              sk_outbox := sk_outbox (socks w ! i) @ frame_bytes (request (req_id c + 1) m p)\<rparr>) w"
  have s: "send i (request (req_id c + 1) m p) w = (Inr (), ?w1)"
    using assms(2-4) by (rule send_fits)
  obtain r2 w2 where v: "recv i ?w1 = (r2, w2)" by (cases "recv i ?w1")
  then have "inbox_step i ?w1 w2" using recv_step [of i ?w1] by simp
  moreover have "i < length (socks ?w1)" using assms(2) by (simp add: usable_def)
  ultimately have "sk_outbox (socks w2 ! i) = sk_outbox (socks ?w1 ! i)"
    using inbox_step_outbox by blast
  moreover have "w' = w2"
    using assms(1,5) s v by (auto simp: call_connected split: sum.splits)
  ultimately show ?thesis
    using assms(2) by (simp add: socks_sock_put usable_def)
qed

section \<open>What the client operations leave alone\<close>

lemma preservesD: "preserves R m \<Longrightarrow> m s = (r, s') \<Longrightarrow> R s s'"
  unfolding preserves_def by (metis snd_conv)

lemma preserves_bind:
  assumes tr: "\<And>a b c. R a b \<Longrightarrow> R b c \<Longrightarrow> R a c"
    and m: "preserves R m" and f: "\<And>x. preserves R (f x)"
  shows "preserves R (io_bind m f)"
  unfolding preserves_def
proof
  fix s
  obtain r s1 where ms: "m s = (r, s1)" by (cases "m s")
  with m have a: "R s s1" by (rule preservesD)
  show "R s (snd (io_bind m f s))"
  proof (cases r)
    case (Inl e)
    with ms a show ?thesis by (simp add: io_bind_def)
  next
    case (Inr x)
    obtain r2 s2 where fs: "f x s1 = (r2, s2)" by (cases "f x s1")
    with f have "R s1 s2" by (rule preservesD)
    with a have "R s s2" by (rule tr)
    with ms Inr fs show ?thesis by (simp add: io_bind_def)
  qed
qed

lemma preserves_pure:
  assumes "\<And>s. R s s"
  shows "preserves R (io_return x)" "preserves R (io_raise e)" "preserves R (io_lift y)"
    "preserves R get_client" "preserves R get_world"
  using assms by (simp_all add: preserves_def io_defs)

lemma preserves_except:
  "preserves R m \<Longrightarrow> preserves R (except_vault_pass m)"
  unfolding preserves_def except_vault_pass_def
  by (auto split: prod.splits sum.splits) (metis snd_conv)+

lemma req_mono_refl: "req_mono s s"
  by (simp add: req_mono_def)

lemma req_mono_trans: "req_mono a b \<Longrightarrow> req_mono b c \<Longrightarrow> req_mono a c"
  by (simp add: req_mono_def)

lemma rpc_frame_refl: "rpc_frame s s"
  by (simp add: rpc_frame_def only_sock_refl split: option.splits)

lemma rpc_frame_trans: "rpc_frame a b \<Longrightarrow> rpc_frame b c \<Longrightarrow> rpc_frame a c"
  unfolding rpc_frame_def
  by (cases "sock (fst a)") (auto intro: only_sock_trans)



lemma call_fields:
  assumes "call m p (c, w) = (r, (c', w'))"
  shows "sock c' = sock c" "session_id c' = session_id c" "leases c' = leases c"
    "agent_name c' = agent_name c" "key_path c' = key_path c" "passphrase c' = passphrase c"
    "host c' = host c" "port c' = port c" "socket_path c' = socket_path c"
proof -
  from call_client [OF assms] have e: "c' = c\<lparr>req_id := req_id c'\<rparr>" by simp
  show "sock c' = sock c" by (subst e) simp
  show "session_id c' = session_id c" by (subst e) simp
  show "leases c' = leases c" by (subst e) simp
  show "agent_name c' = agent_name c" by (subst e) simp
  show "key_path c' = key_path c" by (subst e) simp
  show "passphrase c' = passphrase c" by (subst e) simp
  show "host c' = host c" by (subst e) simp
  show "port c' = port c" by (subst e) simp
  show "socket_path c' = socket_path c" by (subst e) simp
qed

lemma call_req:
  assumes "call m p (c, w) = (r, (c', w'))"
  shows "req_id c' = (if sock c = None then req_id c else req_id c + 1)"
  using call_client [OF assms] by auto

lemma call_req_mono: "preserves req_mono (call m p)"
  unfolding preserves_def
proof
  fix s :: session
  obtain c w where s: "s = (c, w)" by (cases s)
  obtain r c' w' where h: "call m p (c, w) = (r, (c', w'))" by (cases "call m p (c, w)") auto
  from call_req [OF h] have "req_id c \<le> req_id c'" by simp
  with s h show "req_mono s (snd (call m p s))" by (simp add: req_mono_def)
qed

lemma call_rpc_frame: "preserves rpc_frame (call m p)"
  unfolding preserves_def
proof
  fix s :: session
  obtain c w where s: "s = (c, w)" by (cases s)
  obtain r c' w' where h: "call m p (c, w) = (r, (c', w'))" by (cases "call m p (c, w)") auto
  have c: "sock c' = sock c" using h by (rule call_fields)
  have n: "sock c = None \<longrightarrow> w' = w" using call_client [OF h] by simp
  have "sock c = Some i \<Longrightarrow> only_sock i w w'" for i
    using h by (rule call_world [rotated])
  with s h c n show "rpc_frame s (snd (call m p s))"
    by (auto simp: rpc_frame_def split: option.splits)
qed


lemma preserves_assign: "(\<And>c w. R (c, w) (f c, w)) \<Longrightarrow> preserves R (assign f)"
  by (simp add: preserves_def assign_def)

lemma preserves_on_world: "(\<And>c w. R (c, w) (c, snd (f w))) \<Longrightarrow> preserves R (on_world f)"
  unfolding preserves_def on_world_def
  by (auto split: prod.splits) (metis snd_conv)

lemma preserves_snd: "preserves R m \<Longrightarrow> R s (snd (m s))"
  by (cases s) (simp add: preserves_def)

lemma req_mono_bind:
  "preserves req_mono m \<Longrightarrow> (\<And>x. preserves req_mono (f x)) \<Longrightarrow> preserves req_mono (io_bind m f)"
  by (rule preserves_bind [where R = req_mono]) (auto intro: req_mono_trans)

lemmas req_mono_pure = preserves_pure [where R = req_mono, OF req_mono_refl]
lemma rpc_frame_bind:
  "preserves rpc_frame m \<Longrightarrow> (\<And>x. preserves rpc_frame (f x)) \<Longrightarrow> preserves rpc_frame (io_bind m f)"
  by (rule preserves_bind [where R = rpc_frame]) (auto intro: rpc_frame_trans)

lemmas rpc_frame_pure = preserves_pure [where R = rpc_frame, OF rpc_frame_refl]


lemma release_lease_req_mono: "preserves req_mono (release_lease l)"
  unfolding release_lease_def
  by (intro req_mono_bind call_req_mono preserves_assign) (simp_all add: req_mono_def)


lemma release_all_req_mono: "preserves req_mono (release_all ls)"
  by (induction ls)
     (auto intro!: req_mono_bind req_mono_pure preserves_except release_lease_req_mono)


lemma retrieve_req_mono: "preserves req_mono (retrieve L p t)"
  unfolding retrieve_def
  by (intro req_mono_bind req_mono_pure call_req_mono preserves_assign) (simp_all add: req_mono_def)

lemma retrieve_raw_req_mono: "preserves req_mono (retrieve_raw p t)"
  unfolding retrieve_raw_def
  by (intro req_mono_bind req_mono_pure call_req_mono preserves_assign) (simp_all add: req_mono_def)

lemma list_req_mono: "preserves req_mono list"
  unfolding list_def
  by (intro req_mono_bind req_mono_pure call_req_mono)

lemma use_req_mono: "preserves req_mono (use p operation d)"
  unfolding use_def
  by (intro req_mono_bind req_mono_pure call_req_mono)

lemma authenticate_req_mono: "preserves req_mono (authenticate L)"
  unfolding authenticate_def
  by (intro req_mono_bind req_mono_pure call_req_mono preserves_assign)
     (auto simp: req_mono_def intro: req_mono_pure)

lemma authenticate_rpc_frame: "preserves rpc_frame (authenticate L)"
  unfolding authenticate_def
  by (intro rpc_frame_bind rpc_frame_pure call_rpc_frame preserves_assign)
     (auto simp: rpc_frame_def only_sock_refl intro: rpc_frame_pure split: option.splits)


lemma set_target_req_mono: "preserves req_mono (set_target t)"
  unfolding set_target_def
  by (auto intro!: req_mono_bind req_mono_pure preserves_assign simp: req_mono_def
      split: option.splits target.splits list.splits)


lemma new_socket_req_mono: "preserves req_mono new_socket"
  by (simp add: preserves_def new_socket_def req_mono_def sock_new_def)


lemma connect_req_mono: "preserves req_mono (connect L t)"
  unfolding connect_def
  by (intro req_mono_bind req_mono_pure set_target_req_mono new_socket_req_mono
      authenticate_req_mono preserves_on_world) (simp_all add: req_mono_def)


lemma close_req_mono: "preserves req_mono close"
  unfolding close_def
  by (auto intro!: req_mono_bind req_mono_pure release_all_req_mono preserves_assign
      preserves_on_world simp: req_mono_def split: option.splits)

lemma perform_req_mono: "req_mono s (perform L a s)"
proof (cases a)
  case (Connect t)
  then show ?thesis using preserves_snd [OF connect_req_mono [of L t]] by simp
next
  case Close
  then show ?thesis using preserves_snd [OF close_req_mono] by simp
next
  case (Retrieve p t)
  then show ?thesis using preserves_snd [OF retrieve_req_mono [of L p t]] by simp
next
  case (RetrieveRaw p t)
  then show ?thesis using preserves_snd [OF retrieve_raw_req_mono [of p t]] by simp
next
  case ListCredentials
  then show ?thesis using preserves_snd [OF list_req_mono] by simp
next
  case (ReleaseLease l)
  then show ?thesis using preserves_snd [OF release_lease_req_mono [of l]] by simp
next
  case (Use p operation d)
  then show ?thesis using preserves_snd [OF use_req_mono [of p operation d]] by simp
qed

lemma perform_all_req_mono: "req_mono s (perform_all L as s)"
proof (induction as arbitrary: s)
  case Nil
  show ?case by (simp add: req_mono_refl)
next
  case (Cons a as)
  have "req_mono s (perform L a s)" by (rule perform_req_mono)
  moreover have "req_mono (perform L a s) (perform_all L as (perform L a s))" by (rule Cons.IH)
  ultimately show ?case by (simp add: req_mono_trans [of s "perform L a s"])
qed

section \<open>The operations of the client, unfolded\<close>

lemma remove1_single: "count_list xs x \<le> 1 \<Longrightarrow> x \<notin> set (remove1 x xs)"
  by (induction xs) (auto simp: count_list_0_iff split: if_splits)

lemma release_lease_unfold:
  "release_lease l (c, w) =
     (case call ''release_lease'' (JObj [(''lease_id'', l)]) (c, w) of
        (Inl e, s1) \<Rightarrow> (Inl e, s1)
      | (Inr r, (c1, w1)) \<Rightarrow> (Inr (), (c1\<lparr>leases := remove1 l (leases c1)\<rparr>, w1)))"
  by (auto simp: release_lease_def io_defs remove1_idem split: prod.splits sum.splits)

lemma retrieve_raw_unfold:
  "retrieve_raw path ttl (c, w) =
     (case call ''retrieve'' (retrieve_params c path ttl) (c, w) of
        (Inl e, s1) \<Rightarrow> (Inl e, s1)
      | (Inr r, (c1, w1)) \<Rightarrow>
          (case subscript r ''lease_id'' of
             Inl e \<Rightarrow> (Inl e, (c1, w1))
           | Inr lid \<Rightarrow> (Inr r, (c1\<lparr>leases := leases c1 @ [lid]\<rparr>, w1))))"
  by (auto simp: retrieve_raw_def io_defs split: prod.splits sum.splits)

lemma retrieve_unfold:
  "retrieve L path ttl (c, w) =
     (case call ''retrieve'' (retrieve_params c path ttl) (c, w) of
        (Inl e, s1) \<Rightarrow> (Inl e, s1)
      | (Inr r, (c1, w1)) \<Rightarrow>
          (case subscript r ''lease_id'' of
             Inl e \<Rightarrow> (Inl e, (c1, w1))
           | Inr lid \<Rightarrow>
               (case subscript r ''value'' of
                  Inl e \<Rightarrow> (Inl e, (c1\<lparr>leases := leases c1 @ [lid]\<rparr>, w1))
                | Inr v \<Rightarrow>
                    (case fromhex_value v of
                       Inl e \<Rightarrow> (Inl e, (c1\<lparr>leases := leases c1 @ [lid]\<rparr>, w1))
                     | Inr b \<Rightarrow> (Inr (utf8_decode_replace L b), (c1\<lparr>leases := leases c1 @ [lid]\<rparr>, w1))))))"
  by (auto simp: retrieve_def io_defs split: prod.splits sum.splits)






lemma only_sock_length: "only_sock i w w' \<Longrightarrow> length (socks w') = length (socks w)"
  by (simp add: only_sock_def)


lemma split_result: "fst X = a \<Longrightarrow> X = (a, (fst (snd X), snd (snd X)))"
  by (cases X) auto

lemma authenticate_unfold:
  "authenticate L (c, w) =
     (case resolve_key L c w of
        Inl e \<Rightarrow> (Inl e, (c, w))
      | Inr sk \<Rightarrow>
          (case call ''authenticate'' (JObj [(''agent_name'', JStr (agent_name c))]) (c, w) of
             (Inl e, s1) \<Rightarrow> (Inl e, s1)
           | (Inr r, (c1, w1)) \<Rightarrow>
               (case subscript r ''session_id'' of
                  Inl e \<Rightarrow> (Inl e, (c1, w1))
                | Inr sid \<Rightarrow>
                    (case subscript r ''challenge'' of
                       Inl e \<Rightarrow> (Inl e, (c1\<lparr>session_id := sid\<rparr>, w1))
                     | Inr ch \<Rightarrow>
                         (case fromhex_value ch of
                            Inl e \<Rightarrow> (Inl e, (c1\<lparr>session_id := sid\<rparr>, w1))
                          | Inr challenge \<Rightarrow>
                              (case call ''challenge_response''
                                      (JObj [(''session_id'', sid),
                                             (''signature'', JStr (bytes_hex (ed25519_sign L sk challenge)))])
                                      (c1\<lparr>session_id := sid\<rparr>, w1) of
                                 (Inl e, s2) \<Rightarrow> (Inl e, s2)
                               | (Inr r2, s2) \<Rightarrow>
                                   (case py_get r2 ''authenticated'' JNull of
                                      Inl e \<Rightarrow> (Inl e, s2)
                                    | Inr a \<Rightarrow>
                                        if \<not> py_truthy a
                                        then (Inl (vault_coded AuthError ''Authentication not confirmed''
                                                     ''AUTH_FAILED''), s2)
                                        else (Inr (), s2))))))))"
  by (simp add: authenticate_def io_defs split: prod.splits sum.splits)

lemma set_target_world: "set_target t (c, w) = (r, (c0, w0)) \<Longrightarrow> w0 = w"
  by (auto simp: set_target_def io_defs
      split: option.splits target.splits list.splits prod.splits sum.splits)


lemma sock_connect_others:
  assumes "sock_connect i a w = (r, w')"
  shows "length (socks w') = length (socks w)"
    and "map sk_open (socks w') = map sk_open (socks w)"
    and "j \<noteq> i \<Longrightarrow> socks w' ! j = socks w ! j"
proof -
  show "length (socks w') = length (socks w)"
    using assms
    by (auto simp: sock_connect_def split: if_splits option.splits list.splits conn_script.splits)
  show "map sk_open (socks w') = map sk_open (socks w)"
    using assms
    by (auto simp: sock_connect_def socks_sock_put map_update list_update_same_conv
        split: if_splits option.splits list.splits conn_script.splits)
  show "socks w' ! j = socks w ! j" if "j \<noteq> i"
    using assms that
    by (auto simp: sock_connect_def socks_sock_put
        split: if_splits option.splits list.splits conn_script.splits)
qed

lemma only_sock_opens: "only_sock i w w' \<Longrightarrow> map sk_open (socks w') = map sk_open (socks w)"
  by (auto simp: only_sock_def intro: nth_equalityI)

lemma connect_unfold:
  assumes "set_target t (c, w) = (Inr (), (c0, w0))"
  shows "connect L t (c, w) =
     (case sock_connect (length (socks w)) (target_address c0 w) (snd (sock_new w)) of
        (Inl e, w2) \<Rightarrow> (Inl e, (c0\<lparr>sock := Some (length (socks w))\<rparr>, w2))
      | (Inr u, w2) \<Rightarrow> authenticate L (c0\<lparr>sock := Some (length (socks w))\<rparr>, w2))"
proof -
  have "w0 = w" using assms by (rule set_target_world)
  with assms show ?thesis
    by (simp add: connect_def io_defs new_socket_def sock_new_def split: prod.splits sum.splits)
qed

lemma authenticate_frame:
  assumes "authenticate L (c, w) = (r, (c', w'))" and "sock c = Some n"
  shows "sock c' = Some n" and "only_sock n w w'"
  using preserves_snd [OF authenticate_rpc_frame, where s = "(c, w)" and L1 = L] assms
  by (simp_all add: rpc_frame_def)


section \<open>The claims\<close>

subsection \<open>C1: a handshake the vault does not confirm\<close>

text \<open>
  C1, as amended. When the key resolves, both handshake calls return a result, and the
  \<^verbatim>\<open>authenticated\<close> field of the second result is false or absent, \<^verbatim>\<open>_authenticate\<close>
  raises the authentication kind (\<^verbatim>\<open>AuthError\<close>, code \<^verbatim>\<open>AUTH_FAILED\<close>, message
  \<^verbatim>\<open>Authentication not confirmed\<close>). The session identifier the vault sent with the
  challenge was stored before the second call and stays stored after the failure; the socket
  reference stays as it was, and the request counter has advanced by the two calls made.
\<close>

theorem handshake_not_confirmed:
  assumes "resolve_key L c w = Inr sk"
    and "call ''authenticate'' (JObj [(''agent_name'', JStr (agent_name c))]) (c, w) = (Inr r, (c1, w1))"
    and "subscript r ''session_id'' = Inr sid"
    and "subscript r ''challenge'' = Inr ch"
    and "fromhex_value ch = Inr challenge"
    and "call ''challenge_response''
           (JObj [(''session_id'', sid), (''signature'', JStr (bytes_hex (ed25519_sign L sk challenge)))])
           (c1\<lparr>session_id := sid\<rparr>, w1) = (Inr r2, (c2, w2))"
    and "py_get r2 ''authenticated'' JNull = Inr a"
    and "\<not> py_truthy a"
  shows "authenticate L (c, w)
           = (Inl (vault_coded AuthError ''Authentication not confirmed'' ''AUTH_FAILED''), (c2, w2))
         \<and> session_id c2 = sid \<and> sock c2 = sock c \<and> sock c \<noteq> None \<and> req_id c2 = req_id c + 2"
proof -
  have "authenticate L (c, w)
      = (Inl (vault_coded AuthError ''Authentication not confirmed'' ''AUTH_FAILED''), (c2, w2))"
    using assms by (simp add: authenticate_unfold)
  moreover have "session_id c2 = sid"
    using call_fields(2) [OF assms(6)] by simp
  moreover have s: "sock c2 = sock c"
    using call_fields(1) [OF assms(6)] call_fields(1) [OF assms(2)] by simp
  moreover have n: "sock c \<noteq> None"
  proof
    assume "sock c = None"
    then have "call ''authenticate'' (JObj [(''agent_name'', JStr (agent_name c))]) (c, w)
        = (Inl (vault_coded VaultError ''Not connected'' ''INTERNAL_ERROR''), (c, w))"
      by (rule call_unconnected)
    with assms(2) show False by simp
  qed
  moreover have "req_id c2 = req_id c + 2"
    using call_req [OF assms(2)] call_req [OF assms(6)] call_fields(1) [OF assms(2)] n by simp
  ultimately show ?thesis by simp
qed

text \<open>
  The theorem at a connected client whose vault answers the challenge response with a
  result that has no \<^verbatim>\<open>authenticated\<close> field.
\<close>

theorem handshake_not_confirmed_witness:
  "fst (authenticate demo_libs (agent\<lparr>sock := Some 0\<rparr>,
          (one_socket [reply (challenge_reply 1), reply (result_of 2 [])])\<lparr>files := key_files\<rparr>))
     = Inl (vault_coded AuthError ''Authentication not confirmed'' ''AUTH_FAILED'')
   \<and> session_id (fst (snd (authenticate demo_libs (agent\<lparr>sock := Some 0\<rparr>,
          (one_socket [reply (challenge_reply 1), reply (result_of 2 [])])\<lparr>files := key_files\<rparr>))))
     = JStr ''S1''
   \<and> sock (fst (snd (authenticate demo_libs (agent\<lparr>sock := Some 0\<rparr>,
          (one_socket [reply (challenge_reply 1), reply (result_of 2 [])])\<lparr>files := key_files\<rparr>))))
     = Some 0
   \<and> req_id (fst (snd (authenticate demo_libs (agent\<lparr>sock := Some 0\<rparr>,
          (one_socket [reply (challenge_reply 1), reply (result_of 2 [])])\<lparr>files := key_files\<rparr>))))
     = 2"
proof -
  let ?c = "agent\<lparr>sock := Some 0\<rparr>"
  let ?w = "(one_socket [reply (challenge_reply 1), reply (result_of 2 [])])\<lparr>files := key_files\<rparr>"
  let ?sk = "map char_of [0..<32::nat]"
  let ?r = "JObj [(''session_id'', JStr ''S1''), (''challenge'', JStr ''c0ffee'')]"
  let ?ch = "[CHR 0xC0, CHR 0xFF, CHR 0xEE]"
  let ?X = "call ''authenticate'' (JObj [(''agent_name'', JStr (agent_name ?c))]) (?c, ?w)"
  let ?c1 = "fst (snd ?X)" and ?w1 = "snd (snd ?X)"
  let ?Y = "call ''challenge_response''
           (JObj [(''session_id'', JStr ''S1''),
                  (''signature'', JStr (bytes_hex (ed25519_sign demo_libs ?sk ?ch)))])
           (?c1\<lparr>session_id := JStr ''S1''\<rparr>, ?w1)"
  have h1: "resolve_key demo_libs ?c ?w = Inr ?sk" by code_simp
  have h2: "?X = (Inr ?r, (?c1, ?w1))" by code_simp
  have h3: "subscript ?r ''session_id'' = Inr (JStr ''S1'')" by code_simp
  have h4: "subscript ?r ''challenge'' = Inr (JStr ''c0ffee'')" by code_simp
  have h5: "fromhex_value (JStr ''c0ffee'') = Inr ?ch" by code_simp
  have h6: "?Y = (Inr (JObj []), (fst (snd ?Y), snd (snd ?Y)))" by code_simp
  have h7: "py_get (JObj []) ''authenticated'' JNull = Inr JNull" by code_simp
  have h8: "\<not> py_truthy JNull" by simp
  have q: "req_id ?c + 2 = 2" "sock ?c = Some 0" by code_simp+
  from handshake_not_confirmed [OF h1 h2 h3 h4 h5 h6 h7 h8] q
  show ?thesis by simp
qed

text \<open>
  The claim as stated fails: a client that had no session identifier has the identifier
  \<^verbatim>\<open>S1\<close> of the refused handshake after \<^verbatim>\<open>connect\<close> raised.
\<close>

theorem session_id_retained_counterexample:
  "session_id agent = JNull
   \<and> fst (connect demo_libs None (agent, refusing_vault))
        = Inl (vault_coded AuthError ''Authentication not confirmed'' ''AUTH_FAILED'')
   \<and> session_id (fst (snd (connect demo_libs None (agent, refusing_vault)))) = JStr ''S1''"
  by code_simp

subsection \<open>C2: the socket of a failed connect\<close>

text \<open>
  C2, as amended. Once the target is accepted, \<^verbatim>\<open>connect\<close> creates a socket, stores the
  reference to it before connecting, and never closes it: whatever the outcome of
  connecting and of the handshake, and so also when the handshake error propagates, the
  client refers to the new socket and that socket is open, the open flags of all earlier
  sockets being as before. The socket stays open until the caller calls \<^verbatim>\<open>close\<close>.
\<close>

theorem failed_connect_leaves_socket_open:
  assumes "set_target t (c, w) = (Inr (), (c0, w0))"
    and "connect L t (c, w) = (r, (c', w'))"
  shows "sock c' = Some (length (socks w))
       \<and> map sk_open (socks w') = map sk_open (socks w) @ [True]"
proof -
  let ?n = "length (socks w)"
  let ?w1 = "snd (sock_new w)"
  obtain r2 w2 where k: "sock_connect ?n (target_address c0 w) ?w1 = (r2, w2)"
    by (cases "sock_connect ?n (target_address c0 w) ?w1")
  have o1: "map sk_open (socks ?w1) = map sk_open (socks w) @ [True]"
    by (simp add: sock_new_def)
  have o2: "map sk_open (socks w2) = map sk_open (socks w) @ [True]"
    using sock_connect_others(2) [OF k] o1 by simp
  show ?thesis
  proof (cases r2)
    case (Inl e)
    with assms k o2 show ?thesis by (auto simp: connect_unfold)
  next
    case (Inr u)
    with assms k have "authenticate L (c0\<lparr>sock := Some ?n\<rparr>, w2) = (r, (c', w'))"
      by (simp add: connect_unfold)
    from authenticate_frame [OF this] have "sock c' = Some ?n" "only_sock ?n w2 w'" by simp_all
    with o2 show ?thesis by (simp add: only_sock_opens)
  qed
qed

text \<open>
  The theorem at a vault that answers the first handshake call with an error.
\<close>

theorem failed_connect_leaves_socket_open_witness:
  "isl (fst (connect demo_libs None (agent, unknown_agent_vault)))
   \<and> sock (fst (snd (connect demo_libs None (agent, unknown_agent_vault)))) = Some 0
   \<and> map sk_open (socks (snd (snd (connect demo_libs None (agent, unknown_agent_vault))))) = [True]"
proof -
  let ?X = "connect demo_libs None (agent, unknown_agent_vault)"
  have a: "set_target None (agent, unknown_agent_vault) = (Inr (), (agent, unknown_agent_vault))"
    by code_simp
  have b: "isl (fst ?X)"
    by code_simp
  have n: "socks unknown_agent_vault = []"
    by (simp add: unknown_agent_vault_def vault_at_def)
  from failed_connect_leaves_socket_open [OF a split_result [OF refl]] b n
  show ?thesis by simp
qed

text \<open>
  The claim as stated fails: after the handshake is refused and the error has propagated,
  the client still refers to socket 0 and that socket is open.
\<close>

theorem failed_connect_counterexample:
  "fst (connect demo_libs None (agent, refusing_vault))
      = Inl (vault_coded AuthError ''Authentication not confirmed'' ''AUTH_FAILED'')
   \<and> sock (fst (snd (connect demo_libs None (agent, refusing_vault)))) = Some 0
   \<and> sk_open (socks (snd (snd (connect demo_libs None (agent, refusing_vault)))) ! 0)"
  by code_simp

subsection \<open>C3: close\<close>




subsection \<open>C4: the tracked leases\<close>

text \<open>
  C4, as amended. The tracked leases are a list. A \<^verbatim>\<open>retrieve\<close> or
  \<^verbatim>\<open>retrieve_raw\<close> whose call returns a result with a \<^verbatim>\<open>lease_id\<close> appends that id
  once at the end of the list, whether or not the id is already there; a successful
  \<^verbatim>\<open>release_lease\<close> removes the first occurrence of the id, so the id is absent
  afterward when it was tracked at most once; and \<^verbatim>\<open>release_lease\<close> of an id that is not
  tracked returns normally when the vault accepts the call.
\<close>

theorem lease_tracking:
  "(call ''retrieve'' (retrieve_params c path ttl) (c, w) = (Inr r, (c1, w1))
      \<and> subscript r ''lease_id'' = Inr lid \<longrightarrow>
        retrieve_raw path ttl (c, w) = (Inr r, (c1\<lparr>leases := leases c @ [lid]\<rparr>, w1))
        \<and> leases (fst (snd (retrieve L path ttl (c, w)))) = leases c @ [lid])
   \<and> (retrieve L path ttl (c, w) = (Inr v, (c', w')) \<longrightarrow> (\<exists>l. leases c' = leases c @ [l]))
   \<and> (release_lease lid (c, w) = (Inr (), (c', w')) \<longrightarrow>
        leases c' = remove1 lid (leases c)
        \<and> (count_list (leases c) lid \<le> 1 \<longrightarrow> lid \<notin> set (leases c')))
   \<and> (call ''release_lease'' (JObj [(''lease_id'', lid)]) (c, w) = (Inr r, (c1, w1))
      \<and> lid \<notin> set (leases c) \<longrightarrow>
        release_lease lid (c, w) = (Inr (), (c1, w1)))"
proof (intro conjI impI)
  assume a: "call ''retrieve'' (retrieve_params c path ttl) (c, w) = (Inr r, (c1, w1))
      \<and> subscript r ''lease_id'' = Inr lid"
  then have l: "leases c1 = leases c" using call_fields(3) by blast
  from a l show "retrieve_raw path ttl (c, w) = (Inr r, (c1\<lparr>leases := leases c @ [lid]\<rparr>, w1))"
    by (simp add: retrieve_raw_unfold)
  from a l show "leases (fst (snd (retrieve L path ttl (c, w)))) = leases c @ [lid]"
    by (simp add: retrieve_unfold split: sum.splits)
next
  assume a: "retrieve L path ttl (c, w) = (Inr v, (c', w'))"
  obtain r1 c1 w1 where h: "call ''retrieve'' (retrieve_params c path ttl) (c, w) = (r1, (c1, w1))"
    by (cases "call ''retrieve'' (retrieve_params c path ttl) (c, w)") auto
  then have "leases c1 = leases c" by (rule call_fields)
  with a h show "\<exists>l. leases c' = leases c @ [l]"
    by (auto simp: retrieve_unfold split: sum.splits)
next
  assume a: "release_lease lid (c, w) = (Inr (), (c', w'))"
  obtain r1 c1 w1 where h: "call ''release_lease'' (JObj [(''lease_id'', lid)]) (c, w) = (r1, (c1, w1))"
    by (cases "call ''release_lease'' (JObj [(''lease_id'', lid)]) (c, w)") auto
  then have "leases c1 = leases c" by (rule call_fields)
  with a h show r: "leases c' = remove1 lid (leases c)"
    by (auto simp: release_lease_unfold split: sum.splits)
  show "lid \<notin> set (leases c')" if "count_list (leases c) lid \<le> 1"
    using that r by (simp add: remove1_single)
next
  assume a: "call ''release_lease'' (JObj [(''lease_id'', lid)]) (c, w) = (Inr r, (c1, w1))
      \<and> lid \<notin> set (leases c)"
  then have "leases c1 = leases c" using call_fields(3) by blast
  with a show "release_lease lid (c, w) = (Inr (), (c1, w1))"
    by (simp add: release_lease_unfold remove1_idem)
qed

text \<open>
  The theorem at a retrieval that returns lease \<^verbatim>\<open>L1\<close>, at the release of a tracked
  lease, and at the release of a lease that is not tracked.
\<close>

theorem lease_tracking_witness:
  "fst (retrieve_raw ''db/password'' (Some 300) (live [] [reply (lease_reply 3 ''L1'')]))
      = Inr (JObj [(''lease_id'', JStr ''L1''), (''value'', JStr ''6869''), (''ttl'', JInt 300)])
   \<and> leases (fst (snd (retrieve_raw ''db/password'' (Some 300) (live [] [reply (lease_reply 3 ''L1'')]))))
      = [JStr ''L1'']
   \<and> retrieve demo_libs ''db/password'' (Some 300) (live [] [reply (lease_reply 3 ''L1'')])
      = (Inr [104, 105], snd (retrieve_raw ''db/password'' (Some 300) (live [] [reply (lease_reply 3 ''L1'')])))
   \<and> fst (release_lease (JStr ''L1'') (live [JStr ''L0'', JStr ''L1''] [reply (result_of 3 [])])) = Inr ()
   \<and> leases (fst (snd (release_lease (JStr ''L1'') (live [JStr ''L0'', JStr ''L1''] [reply (result_of 3 [])]))))
      = [JStr ''L0'']
   \<and> fst (release_lease (JStr ''L7'') (live [JStr ''L0'', JStr ''L1''] [reply (result_of 3 [])])) = Inr ()
   \<and> leases (fst (snd (release_lease (JStr ''L7'') (live [JStr ''L0'', JStr ''L1''] [reply (result_of 3 [])]))))
      = [JStr ''L0'', JStr ''L1'']"
proof -
  let ?c = "live_client []" and ?w = "(one_socket [reply (lease_reply 3 ''L1'')])\<lparr>files := key_files\<rparr>"
  let ?r = "JObj [(''lease_id'', JStr ''L1''), (''value'', JStr ''6869''), (''ttl'', JInt 300)]"
  let ?X = "call ''retrieve'' (retrieve_params ?c ''db/password'' (Some 300)) (?c, ?w)"
  let ?d = "live_client [JStr ''L0'', JStr ''L1'']"
  let ?v = "(one_socket [reply (result_of 3 [])])\<lparr>files := key_files\<rparr>"
  let ?Y = "call ''release_lease'' (JObj [(''lease_id'', JStr ''L1'')]) (?d, ?v)"
  let ?Z = "call ''release_lease'' (JObj [(''lease_id'', JStr ''L7'')]) (?d, ?v)"
  have x: "?X = (Inr ?r, (fst (snd ?X), snd (snd ?X))) \<and> subscript ?r ''lease_id'' = Inr (JStr ''L1'')"
    by code_simp
  have rv: "retrieve demo_libs ''db/password'' (Some 300) (?c, ?w)
      = (Inr [104, 105], snd (retrieve_raw ''db/password'' (Some 300) (?c, ?w)))"
    by code_simp
  have y: "release_lease (JStr ''L1'') (?d, ?v)
      = (Inr (), (fst (snd (release_lease (JStr ''L1'') (?d, ?v))), snd (snd (release_lease (JStr ''L1'') (?d, ?v)))))"
    by code_simp
  have n: "count_list (leases ?d) (JStr ''L1'') \<le> 1" "leases ?c = []" "leases ?d = [JStr ''L0'', JStr ''L1'']"
    by code_simp+
  have z: "?Z = (Inr (JObj []), (fst (snd ?Z), snd (snd ?Z))) \<and> JStr ''L7'' \<notin> set (leases ?d)"
    by code_simp
  have zl: "leases (fst (snd ?Z)) = [JStr ''L0'', JStr ''L1'']"
    by code_simp
  from lease_tracking [where c = ?c and w = ?w and path = "''db/password''" and ttl = "Some 300"
      and r = ?r and lid = "JStr ''L1''" and ?c1.0 = "fst (snd ?X)" and ?w1.0 = "snd (snd ?X)"
      and L = demo_libs] x
  have 1: "retrieve_raw ''db/password'' (Some 300) (?c, ?w)
       = (Inr ?r, ((fst (snd ?X))\<lparr>leases := leases ?c @ [JStr ''L1'']\<rparr>, snd (snd ?X)))"
    by blast
  from lease_tracking [where c = ?d and w = ?v and lid = "JStr ''L1''"
      and c' = "fst (snd (release_lease (JStr ''L1'') (?d, ?v)))"
      and w' = "snd (snd (release_lease (JStr ''L1'') (?d, ?v)))"] y
  have 2: "leases (fst (snd (release_lease (JStr ''L1'') (?d, ?v)))) = remove1 (JStr ''L1'') (leases ?d)"
    by blast
  from lease_tracking [where c = ?d and w = ?v and lid = "JStr ''L7''" and r = "JObj []"
      and ?c1.0 = "fst (snd ?Z)" and ?w1.0 = "snd (snd ?Z)"] z
  have 3: "release_lease (JStr ''L7'') (?d, ?v) = (Inr (), (fst (snd ?Z), snd (snd ?Z)))"
    by blast
  from 1 have ra: "fst (retrieve_raw ''db/password'' (Some 300) (?c, ?w)) = Inr ?r"
    and rb: "leases (fst (snd (retrieve_raw ''db/password'' (Some 300) (?c, ?w)))) = [JStr ''L1'']"
    by (simp_all add: n)
  from 2 have la: "leases (fst (snd (release_lease (JStr ''L1'') (?d, ?v)))) = [JStr ''L0'']"
    by (simp add: n)
  from y have lb: "fst (release_lease (JStr ''L1'') (?d, ?v)) = Inr ()"
    by (metis fst_conv)
  from 3 zl have ma: "fst (release_lease (JStr ''L7'') (?d, ?v)) = Inr ()"
    and mb: "leases (fst (snd (release_lease (JStr ''L7'') (?d, ?v)))) = [JStr ''L0'', JStr ''L1'']"
    by simp_all
  from ra rb rv la lb ma mb show ?thesis
    by (simp only: live_def) 
qed

text \<open>
  The claim as stated fails: when the vault returns the same lease id for two retrievals
  the id is tracked twice, and it is still tracked after a successful release.
\<close>

theorem duplicate_lease_counterexample:
  "fst (retrieve_raw ''db/password'' None (live [] [reply (lease_reply 3 ''L1''), reply (lease_reply 4 ''L1''), reply (result_of 5 [])]))
      = Inr (JObj [(''lease_id'', JStr ''L1''), (''value'', JStr ''6869''), (''ttl'', JInt 300)])
   \<and> fst (retrieve_raw ''db/password'' None
            (snd (retrieve_raw ''db/password'' None (live [] [reply (lease_reply 3 ''L1''), reply (lease_reply 4 ''L1''), reply (result_of 5 [])]))))
      = Inr (JObj [(''lease_id'', JStr ''L1''), (''value'', JStr ''6869''), (''ttl'', JInt 300)])
   \<and> leases (fst (perform_all demo_libs [RetrieveRaw ''db/password'' None, RetrieveRaw ''db/password'' None]
                  (live [] [reply (lease_reply 3 ''L1''), reply (lease_reply 4 ''L1''), reply (result_of 5 [])])))
      = [JStr ''L1'', JStr ''L1'']
   \<and> fst (release_lease (JStr ''L1'')
            (perform_all demo_libs [RetrieveRaw ''db/password'' None, RetrieveRaw ''db/password'' None]
               (live [] [reply (lease_reply 3 ''L1''), reply (lease_reply 4 ''L1''), reply (result_of 5 [])])))
      = Inr ()
   \<and> leases (fst (perform_all demo_libs
                    [RetrieveRaw ''db/password'' None, RetrieveRaw ''db/password'' None, ReleaseLease (JStr ''L1'')]
                    (live [] [reply (lease_reply 3 ''L1''), reply (lease_reply 4 ''L1''), reply (result_of 5 [])])))
      = [JStr ''L1'']"
  by code_simp

lemma lookup_class_str:
  "lookup_class (JStr c) = Inr (case map_of CODE_TO_EXCEPTION c of None \<Rightarrow> VaultError | Some k \<Rightarrow> k)"
  by (simp add: lookup_class_def split: option.splits)

subsection \<open>C5: the error taxonomy\<close>

text \<open>
  C5, as amended. \<^verbatim>\<open>raise_on_error\<close> returns without raising exactly when the response
  has no \<^verbatim>\<open>error\<close> key or has it with the value \<^verbatim>\<open>null\<close>; so it raises if and only if
  the \<^verbatim>\<open>error\<close> field is present and not null. A bare string yields the generic
  \<^verbatim>\<open>VaultError\<close> with that string as message. A structured error whose code is a string
  yields the kind the table gives for the code, the generic \<^verbatim>\<open>VaultError\<close> for a code the
  table does not have, and carries the code, the message (\<^verbatim>\<open>"Unknown error"\<close> if absent),
  and detail, suggestion, docs_url and context as sent (\<^verbatim>\<open>None\<close>, and the empty mapping
  for the context, when absent).
\<close>

theorem raise_on_error_taxonomy:
  "(raise_on_error (JObj d) = Inr () \<longleftrightarrow> map_of d ''error'' = None \<or> map_of d ''error'' = Some JNull)
   \<and> (map_of d ''error'' = Some (JStr msg) \<longrightarrow>
        raise_on_error (JObj d) = Inl (vault_msg VaultError msg))
   \<and> (map_of d ''error'' = Some (JObj e) \<and> map_of e ''code'' = Some (JStr c) \<longrightarrow>
        raise_on_error (JObj d) =
          Inl (Vault \<lparr>exc_kind = (case map_of CODE_TO_EXCEPTION c of None \<Rightarrow> VaultError | Some k \<Rightarrow> k),
                      exc_message = dict_get e ''message'' (JStr ''Unknown error''),
                      exc_code = Some (JStr c),
                      exc_detail = Some (dict_get e ''detail'' JNull),
                      exc_suggestion = Some (dict_get e ''suggestion'' JNull),
                      exc_docs_url = Some (dict_get e ''docs_url'' JNull),
                      exc_context = Some (dict_get e ''context'' (JObj []))\<rparr>))"
proof (intro conjI impI)
  show "raise_on_error (JObj d) = Inr () \<longleftrightarrow> map_of d ''error'' = None \<or> map_of d ''error'' = Some JNull"
    by (auto simp: raise_on_error_def py_get_def dict_get_def vault_msg_def Let_def
        split: option.splits json.splits sum.splits)
next
  assume "map_of d ''error'' = Some (JStr msg)"
  then show "raise_on_error (JObj d) = Inl (vault_msg VaultError msg)"
    by (simp add: raise_on_error_def py_get_def dict_get_def)
next
  assume "map_of d ''error'' = Some (JObj e) \<and> map_of e ''code'' = Some (JStr c)"
  then show "raise_on_error (JObj d) =
          Inl (Vault \<lparr>exc_kind = (case map_of CODE_TO_EXCEPTION c of None \<Rightarrow> VaultError | Some k \<Rightarrow> k),
                      exc_message = dict_get e ''message'' (JStr ''Unknown error''),
                      exc_code = Some (JStr c),
                      exc_detail = Some (dict_get e ''detail'' JNull),
                      exc_suggestion = Some (dict_get e ''suggestion'' JNull),
                      exc_docs_url = Some (dict_get e ''docs_url'' JNull),
                      exc_context = Some (dict_get e ''context'' (JObj []))\<rparr>)"
    by (simp add: raise_on_error_def py_get_def dict_get_def lookup_class_str Let_def)
qed

text \<open>
  The theorem at the responses of the test suite: the structured \<^verbatim>\<open>ACCESS_DENIED\<close> error,
  an unknown code, the bare string and the response without an error.
\<close>

theorem raise_on_error_taxonomy_witness:
  "raise_on_error denied_response =
     Inl (Vault \<lparr>exc_kind = AccessDenied, exc_message = JStr ''not allowed'',
                 exc_code = Some (JStr ''ACCESS_DENIED''), exc_detail = Some (JStr ''policy forbids''),
                 exc_suggestion = Some (JStr ''ask admin''), exc_docs_url = Some JNull,
                 exc_context = Some (JObj [])\<rparr>)
   \<and> raise_on_error (JObj [(''id'', JInt 1), (''error'', JObj [(''code'', JStr ''QUOTA''), (''message'', JStr ''m'')])]) =
     Inl (Vault \<lparr>exc_kind = VaultError, exc_message = JStr ''m'',
                 exc_code = Some (JStr ''QUOTA''), exc_detail = Some JNull,
                 exc_suggestion = Some JNull, exc_docs_url = Some JNull,
                 exc_context = Some (JObj [])\<rparr>)
   \<and> raise_on_error (JObj [(''id'', JInt 1), (''error'', JStr ''something went wrong'')]) =
     Inl (vault_msg VaultError ''something went wrong'')
   \<and> raise_on_error (JObj [(''id'', JInt 1), (''result'', JObj [])]) = Inr ()"
proof -
  let ?e = "[(''code'', JStr ''ACCESS_DENIED''), (''message'', JStr ''not allowed''),
             (''detail'', JStr ''policy forbids''), (''suggestion'', JStr ''ask admin'')]"
  let ?u = "[(''code'', JStr ''QUOTA''), (''message'', JStr ''m'')]"
  have a: "map_of [(''id'', JInt 1), (''error'', JObj ?e)] ''error'' = Some (JObj ?e)
      \<and> map_of ?e ''code'' = Some (JStr ''ACCESS_DENIED'')"
    by simp
  have b: "map_of [(''id'', JInt 1), (''error'', JObj ?u)] ''error'' = Some (JObj ?u)
      \<and> map_of ?u ''code'' = Some (JStr ''QUOTA'')"
    by simp
  have c: "map_of [(''id'', JInt 1), (''error'', JStr ''something went wrong'')] ''error''
      = Some (JStr ''something went wrong'')"
    by simp
  have d: "map_of [(''id'', JInt 1), (''result'', JObj [])] ''error'' = None"
    by simp
  from raise_on_error_taxonomy [of "[(''id'', JInt 1), (''error'', JObj ?e)]" "''x''" ?e "''ACCESS_DENIED''"] a
  have 1: "raise_on_error denied_response =
     Inl (Vault \<lparr>exc_kind = AccessDenied, exc_message = JStr ''not allowed'',
                 exc_code = Some (JStr ''ACCESS_DENIED''), exc_detail = Some (JStr ''policy forbids''),
                 exc_suggestion = Some (JStr ''ask admin''), exc_docs_url = Some JNull,
                 exc_context = Some (JObj [])\<rparr>)"
    by (simp add: denied_response_def CODE_TO_EXCEPTION_def dict_get_def)
  from raise_on_error_taxonomy [of "[(''id'', JInt 1), (''error'', JObj ?u)]" "''x''" ?u "''QUOTA''"] b
  have 2: "raise_on_error (JObj [(''id'', JInt 1), (''error'', JObj ?u)]) =
     Inl (Vault \<lparr>exc_kind = VaultError, exc_message = JStr ''m'',
                 exc_code = Some (JStr ''QUOTA''), exc_detail = Some JNull,
                 exc_suggestion = Some JNull, exc_docs_url = Some JNull,
                 exc_context = Some (JObj [])\<rparr>)"
    by (simp add: CODE_TO_EXCEPTION_def dict_get_def)
  from raise_on_error_taxonomy
         [of "[(''id'', JInt 1), (''error'', JStr ''something went wrong'')]" "''something went wrong''" "[]" "[]"] c
  have 3: "raise_on_error (JObj [(''id'', JInt 1), (''error'', JStr ''something went wrong'')]) =
     Inl (vault_msg VaultError ''something went wrong'')"
    by simp
  from raise_on_error_taxonomy [of "[(''id'', JInt 1), (''result'', JObj [])]" "[]" "[]" "[]"] d
  have 4: "raise_on_error (JObj [(''id'', JInt 1), (''result'', JObj [])]) = Inr ()"
    by simp
  from 1 2 3 4 show ?thesis by blast
qed

text \<open>
  The claim as stated fails for a response that contains the \<^verbatim>\<open>error\<close> key with the value
  \<^verbatim>\<open>null\<close>: the field is there and nothing is raised.
\<close>

theorem raise_on_error_null_counterexample:
  "map_of [(''id'', JInt 1), (''error'', JNull)] ''error'' = Some JNull
   \<and> raise_on_error (JObj [(''id'', JInt 1), (''error'', JNull)]) = Inr ()"
  by code_simp

lemma wf_one_member: "wf_json (one_member n)"
  by (simp add: one_member_def)

lemma length_one_member: "length (json_dumps (one_member n)) = n + 8"
  unfolding one_member_def long_text_def by (rule length_dumps_one_member)

lemma read_header_chunk:
  assumes "usable i w" and "sk_inbox (socks w ! i) = Data (h @ body) # evs"
    and "length h = 4" and "body \<noteq> []"
  shows "read_exact i 4 [] w = (Inr h, sock_put i ((socks w ! i)\<lparr>sk_inbox := Data body # evs\<rparr>) w)"
proof -
  let ?w1 = "sock_put i ((socks w ! i)\<lparr>sk_inbox := Data body # evs\<rparr>) w"
  have "sock_recv i 4 w = (Inr h, ?w1)"
    using assms by (simp add: sock_recv_def)
  moreover have "read_exact i 4 h ?w1 = (Inr h, ?w1)"
    using assms(3) by (subst read_exact.simps) simp
  ultimately show ?thesis
    using assms(3) by (subst read_exact.simps) auto
qed

lemma recv_too_large:
  assumes "read_exact i 4 [] w = (Inr header, w1)" and "unpack_u32 header = Inr n"
    and "MAX_MESSAGE_SIZE < n"
  shows "recv i w = (Inl (vault_coded VaultError ''Response too large'' ''INTERNAL_ERROR''), w1)"
  using assms by (simp add: recv_def)

subsection \<open>C6: frames longer than the maximum\<close>

text \<open>
  C6, as amended. The streaming \<^verbatim>\<open>recv\<close> rejects a frame whose declared length exceeds
  4 MiB with \<^verbatim>\<open>VaultError("Response too large")\<close> as soon as it has read the four header
  bytes: the state of the socket is the one the header read left, and when header and body
  arrive in one piece the whole body is still unread. The in-memory \<^verbatim>\<open>decode_frame\<close> has
  no maximum: it rejects a buffer of fewer than 4 bytes (incomplete header) and a buffer of
  fewer than 4 + length bytes (incomplete body), both before any parsing, and parses every
  complete frame whatever its declared length.
\<close>

theorem oversized_frame_rejection:
  "(read_exact i 4 [] w = (Inr header, w1) \<and> unpack_u32 header = Inr n \<and> MAX_MESSAGE_SIZE < n \<longrightarrow>
      recv i w = (Inl (vault_coded VaultError ''Response too large'' ''INTERNAL_ERROR''), w1))
   \<and> (usable i w \<and> sk_inbox (socks w ! i) = Data (be32 m @ body) # evs \<and> body \<noteq> []
        \<and> m < 4294967296 \<and> MAX_MESSAGE_SIZE < m \<longrightarrow>
      recv i w = (Inl (vault_coded VaultError ''Response too large'' ''INTERNAL_ERROR''),
                  sock_put i ((socks w ! i)\<lparr>sk_inbox := Data body # evs\<rparr>) w))
   \<and> (length data < 4 \<longrightarrow>
      decode_frame data = Inl (vault_coded VaultError ''Incomplete frame header'' ''INTERNAL_ERROR''))
   \<and> (4 \<le> length data \<and> unpack_u32 (take 4 data) = Inr k \<and> length data < 4 + k \<longrightarrow>
      decode_frame data = Inl (vault_coded VaultError ''Incomplete frame body'' ''INTERNAL_ERROR''))
   \<and> (4 \<le> length data \<and> unpack_u32 (take 4 data) = Inr k \<and> 4 + k \<le> length data \<longrightarrow>
      decode_frame data = map_sum id (\<lambda>obj. (obj, drop (4 + k) data)) (json_loads (take k (drop 4 data))))"
proof (intro conjI impI)
  assume "read_exact i 4 [] w = (Inr header, w1) \<and> unpack_u32 header = Inr n \<and> MAX_MESSAGE_SIZE < n"
  then show "recv i w = (Inl (vault_coded VaultError ''Response too large'' ''INTERNAL_ERROR''), w1)"
    by (simp add: recv_too_large)
next
  assume a: "usable i w \<and> sk_inbox (socks w ! i) = Data (be32 m @ body) # evs \<and> body \<noteq> []
        \<and> m < 4294967296 \<and> MAX_MESSAGE_SIZE < m"
  then have "read_exact i 4 [] w
      = (Inr (be32 m), sock_put i ((socks w ! i)\<lparr>sk_inbox := Data body # evs\<rparr>) w)"
    by (intro read_header_chunk) (simp_all add: length_be32)
  moreover from a have "unpack_u32 (be32 m) = Inr m" by (intro unpack_be32) simp
  moreover from a have "MAX_MESSAGE_SIZE < m" by simp
  ultimately show "recv i w = (Inl (vault_coded VaultError ''Response too large'' ''INTERNAL_ERROR''),
                  sock_put i ((socks w ! i)\<lparr>sk_inbox := Data body # evs\<rparr>) w)"
    by (rule recv_too_large)
next
  assume "length data < 4"
  then show "decode_frame data = Inl (vault_coded VaultError ''Incomplete frame header'' ''INTERNAL_ERROR'')"
    by (simp add: decode_frame_def)
next
  assume "4 \<le> length data \<and> unpack_u32 (take 4 data) = Inr k \<and> length data < 4 + k"
  then show "decode_frame data = Inl (vault_coded VaultError ''Incomplete frame body'' ''INTERNAL_ERROR'')"
    by (simp add: decode_frame_def)
next
  assume "4 \<le> length data \<and> unpack_u32 (take 4 data) = Inr k \<and> 4 + k \<le> length data"
  then show "decode_frame data
      = map_sum id (\<lambda>obj. (obj, drop (4 + k) data)) (json_loads (take k (drop 4 data)))"
    by (auto simp: decode_frame_def split: sum.splits)
qed

text \<open>
  The theorem at a socket that delivers a header announcing 5000000 bytes, and at the
  buffers of the test suite.
\<close>

theorem oversized_frame_rejection_witness:
  "recv 0 (one_socket [Data (be32 5000000 @ ''{}''), Data ''rest''])
     = (Inl (vault_coded VaultError ''Response too large'' ''INTERNAL_ERROR''),
        one_socket [Data ''{}'', Data ''rest''])
   \<and> decode_frame [CHR 0x00, CHR 0x00] = Inl (vault_coded VaultError ''Incomplete frame header'' ''INTERNAL_ERROR'')
   \<and> decode_frame (be32 100 @ ''short'') = Inl (vault_coded VaultError ''Incomplete frame body'' ''INTERNAL_ERROR'')
   \<and> decode_frame (be32 2 @ ''{}'' @ ''tail'') = Inr (JObj [], ''tail'')"
proof -
  let ?w = "one_socket [Data (be32 5000000 @ ''{}''), Data ''rest'']"
  have h: "usable 0 ?w \<and> sk_inbox (socks ?w ! 0) = Data (be32 5000000 @ ''{}'') # [Data ''rest'']
      \<and> ''{}'' \<noteq> [] \<and> (5000000::nat) < 4294967296 \<and> MAX_MESSAGE_SIZE < 5000000"
    by code_simp
  have p: "sock_put 0 ((socks ?w ! 0)\<lparr>sk_inbox := Data ''{}'' # [Data ''rest'']\<rparr>) ?w
      = one_socket [Data ''{}'', Data ''rest'']"
    by code_simp
  have a: "length [CHR 0x00, CHR 0x00] < 4" by simp
  have b: "4 \<le> length (be32 100 @ ''short'') \<and> unpack_u32 (take 4 (be32 100 @ ''short'')) = Inr 100
      \<and> length (be32 100 @ ''short'') < 4 + 100"
    by code_simp
  have c: "4 \<le> length (be32 2 @ ''{}'' @ ''tail'') \<and> unpack_u32 (take 4 (be32 2 @ ''{}'' @ ''tail'')) = Inr 2
      \<and> 4 + 2 \<le> length (be32 2 @ ''{}'' @ ''tail'')"
    by code_simp
  have d: "map_sum id (\<lambda>obj. (obj, drop (4 + 2) (be32 2 @ ''{}'' @ ''tail'')))
              (json_loads (take 2 (drop 4 (be32 2 @ ''{}'' @ ''tail'')))) = Inr (JObj [], ''tail'')"
    by code_simp
  from oversized_frame_rejection [of 0 ?w "[]" ?w 0 5000000 "''{}''" "[Data ''rest'']" "[CHR 0x00, CHR 0x00]" 0]
  have 1: "recv 0 ?w = (Inl (vault_coded VaultError ''Response too large'' ''INTERNAL_ERROR''),
        one_socket [Data ''{}'', Data ''rest''])"
    and 2: "decode_frame [CHR 0x00, CHR 0x00] = Inl (vault_coded VaultError ''Incomplete frame header'' ''INTERNAL_ERROR'')"
    using h p a by simp_all
  from oversized_frame_rejection [of 0 ?w "[]" ?w 0 0 "[]" "[]" "be32 100 @ ''short''" 100] b
  have 3: "decode_frame (be32 100 @ ''short'') = Inl (vault_coded VaultError ''Incomplete frame body'' ''INTERNAL_ERROR'')"
    by blast
  from oversized_frame_rejection [of 0 ?w "[]" ?w 0 0 "[]" "[]" "be32 2 @ ''{}'' @ ''tail''" 2] c d
  have 4: "decode_frame (be32 2 @ ''{}'' @ ''tail'') = Inr (JObj [], ''tail'')"
    by simp
  from 1 2 3 4 show ?thesis by blast
qed

text \<open>
  The claim as stated fails for \<^verbatim>\<open>decode_frame\<close>: a complete frame declaring 4194305
  bytes, one more than the maximum, is decoded.
\<close>

theorem decode_frame_no_maximum_counterexample:
  "unpack_u32 (take 4 (frame_bytes (one_member 4194297))) = Inr 4194305
   \<and> MAX_MESSAGE_SIZE < 4194305
   \<and> decode_frame (frame_bytes (one_member 4194297)) = Inr (one_member 4194297, [])"
proof -
  have l: "length (json_dumps (one_member 4194297)) = 4194305"
    using length_one_member [of 4194297] by simp
  then have "take 4 (frame_bytes (one_member 4194297)) = be32 4194305"
    by (simp add: frame_bytes_def length_be32)
  then have "unpack_u32 (take 4 (frame_bytes (one_member 4194297))) = Inr 4194305"
    by (simp add: unpack_be32)
  moreover have "MAX_MESSAGE_SIZE < 4194305" by (simp add: MAX_MESSAGE_SIZE_def)
  moreover have "decode_frame (frame_bytes (one_member 4194297) @ []) = Inr (one_member 4194297, [])"
    using l by (intro decode_frame_bytes wf_one_member) simp
  ultimately show ?thesis by simp
qed

subsection \<open>C7: the frame codec round-trips\<close>





subsection \<open>C8: request ids\<close>

text \<open>
  C8, as amended. The request counter belongs to the client object, not to a
  connection. It is 0 in a new client; every RPC call of a connected client adds one to it
  and sends the new value as the \<^verbatim>\<open>id\<close> of the request; and no operation of the client,
  \<^verbatim>\<open>connect\<close> and \<^verbatim>\<open>close\<close> included, ever lowers or resets it. So the ids of one
  client are 1, 2, 3, ... over all its connections, strictly increasing and never
  repeated.
\<close>

theorem request_id_sequencing:
  "req_id (client_init name spath h p kpath pass) = 0
   \<and> (sock c \<noteq> None \<and> call m ps (c, w) = (r, (c', w')) \<longrightarrow> req_id c' = req_id c + 1)
   \<and> (sock c = Some i \<and> usable i w \<and> 0 < sk_sends (socks w ! i)
        \<and> length (json_dumps (request (req_id c + 1) m ps)) < 4294967296
        \<and> call m ps (c, w) = (r, (c', w'))
      \<longrightarrow> sk_outbox (socks w' ! i)
            = sk_outbox (socks w ! i) @ frame_bytes (request (req_id c + 1) m ps))
   \<and> req_id (fst s) \<le> req_id (fst (perform_all L ops s))"
proof (intro conjI impI)
  show "req_id (client_init name spath h p kpath pass) = 0"
    by (simp add: client_init_def)
next
  assume "sock c \<noteq> None \<and> call m ps (c, w) = (r, (c', w'))"
  then show "req_id c' = req_id c + 1" using call_req [of m ps c w r c' w'] by simp
next
  assume "sock c = Some i \<and> usable i w \<and> 0 < sk_sends (socks w ! i)
        \<and> length (json_dumps (request (req_id c + 1) m ps)) < 4294967296
        \<and> call m ps (c, w) = (r, (c', w'))"
  then show "sk_outbox (socks w' ! i)
            = sk_outbox (socks w ! i) @ frame_bytes (request (req_id c + 1) m ps)"
    using call_outbox [of c i w m ps r c' w'] by blast
next
  show "req_id (fst s) \<le> req_id (fst (perform_all L ops s))"
    using perform_all_req_mono [of s L ops] by (simp add: req_mono_def)
qed

text \<open>
  The theorem at a new client and at a connected client whose counter is 2.
\<close>

theorem request_id_sequencing_witness:
  "req_id (agent_with_key (Some ''/k'') None) = 0
   \<and> req_id (fst (snd (call ''list'' (JObj []) (live [] [reply (result_of 3 [])])))) = 3
   \<and> sk_outbox (socks (snd (snd (call ''list'' (JObj []) (live [] [reply (result_of 3 [])])))) ! 0)
      = frame_bytes (request 3 ''list'' (JObj []))
   \<and> 2 \<le> req_id (fst (perform_all demo_libs [ListCredentials, Close]
                          (live [] [reply (result_of 3 [])])))"
proof -
  let ?c = "live_client []" and ?w = "(one_socket [reply (result_of 3 [])])\<lparr>files := key_files\<rparr>"
  let ?X = "call ''list'' (JObj []) (?c, ?w)"
  have f: "sock ?c = Some 0" "req_id ?c = 2" by (simp_all add: live_client_def)
  have u: "usable 0 ?w" "0 < sk_sends (socks ?w ! 0)" "sk_outbox (socks ?w ! 0) = []"
    by (simp_all add: usable_def one_socket_def inbound_def)
  have l: "length (json_dumps (request (req_id ?c + 1) ''list'' (JObj []))) < 4294967296"
    by code_simp
  have x: "?X = (fst ?X, (fst (snd ?X), snd (snd ?X)))" by simp
  from request_id_sequencing [where c = ?c and w = ?w and i = 0 and m = "''list''" and ps = "JObj []"
      and r = "fst ?X" and c' = "fst (snd ?X)" and w' = "snd (snd ?X)" and name = "''agent''"
      and spath = None and h = None and p = None and kpath = "Some ''/k''" and pass = None
      and s = "(?c, ?w)" and L = demo_libs and ops = "[ListCredentials, Close]"] f u l x
  have "req_id (client_init ''agent'' None None None (Some ''/k'') None) = 0
      \<and> req_id (fst (snd ?X)) = req_id ?c + 1
      \<and> sk_outbox (socks (snd (snd ?X)) ! 0)
          = sk_outbox (socks ?w ! 0) @ frame_bytes (request (req_id ?c + 1) ''list'' (JObj []))
      \<and> req_id (fst (?c, ?w)) \<le> req_id (fst (perform_all demo_libs [ListCredentials, Close] (?c, ?w)))"
    by blast
  with f u show ?thesis by (simp add: live_def agent_with_key_def)
qed

text \<open>
  The claim as stated fails: a client that connects, closes and connects again sends the
  first request of its second connection with id 3.
\<close>

theorem second_connection_counterexample:
  "sock (fst two_connections) = Some 1
   \<and> first_sent 0 two_connections
       = Inr (request 1 ''authenticate'' (JObj [(''agent_name'', JStr ''agent'')]))
   \<and> first_sent 1 two_connections
       = Inr (request 3 ''authenticate'' (JObj [(''agent_name'', JStr ''agent'')]))"
  by code_simp

lemma bytes_fromhex_error: "bytes_fromhex s = Inl e \<Longrightarrow> e = ValueError"
  by (induction s arbitrary: e rule: bytes_fromhex.induct)
     (auto split: if_splits option.splits sum.splits)

lemma read_text_error: "read_text w p = Inl e \<Longrightarrow> e = OSError"
  by (auto simp: read_text_def split: option.splits)

subsection \<open>C9: failures of key resolution\<close>

text \<open>
  C9, as amended. With an explicit key path the key file at that path (after
  \<^verbatim>\<open>expanduser\<close>) is read as hex text, and a plaintext key file that decodes to a number
  of bytes other than 32 fails with the authentication kind (\<^verbatim>\<open>AuthError\<close>, code
  \<^verbatim>\<open>AUTH_FAILED\<close>, the message naming the length); one that decodes to 32 bytes gives the
  key. The other failures of key resolution are not turned into authentication failures:
  malformed hex raises \<^verbatim>\<open>ValueError\<close> from either loader, a missing file raises
  \<^verbatim>\<open>OSError\<close>, and a secret box that does not open raises \<^verbatim>\<open>CryptoError\<close>, each as the
  library raised it.
\<close>

theorem key_resolution_failures:
  "(str_truthy (key_path c) \<longrightarrow>
      resolve_key L c w = load_signing_key w (expanduser w (or_empty (key_path c))))
   \<and> (read_text w p = Inr raw \<and> bytes_fromhex (py_strip raw) = Inr seed \<and> length seed \<noteq> 32 \<longrightarrow>
      load_signing_key w p =
        Inl (vault_coded AuthError (''Key file has '' @ show_nat (length seed) @ '' bytes, expected 32'')
               ''AUTH_FAILED''))
   \<and> (read_text w p = Inr raw \<and> bytes_fromhex (py_strip raw) = Inr seed \<and> length seed = 32 \<longrightarrow>
      load_signing_key w p = Inr seed)
   \<and> (read_text w p = Inr raw \<and> bytes_fromhex (py_strip raw) = Inl e \<longrightarrow>
      load_signing_key w p = Inl ValueError \<and> load_encrypted_key L w p pass = Inl ValueError)
   \<and> (read_text w p = Inl e \<longrightarrow>
      load_signing_key w p = Inl OSError \<and> load_encrypted_key L w p pass = Inl OSError)
   \<and> (read_text w p = Inr raw \<and> bytes_fromhex (py_strip raw) = Inr seed
        \<and> length (pbkdf2_hmac_sha256 L (utf8_encode pass) (take 16 seed)) = 32
        \<and> length (take 24 (drop 16 seed)) = 24
        \<and> secretbox_decrypt L (pbkdf2_hmac_sha256 L (utf8_encode pass) (take 16 seed))
              (take 24 (drop 16 seed)) (drop 40 seed) = None \<longrightarrow>
      load_encrypted_key L w p pass = Inl CryptoError)"
proof (intro conjI impI)
  assume "str_truthy (key_path c)"
  then show "resolve_key L c w = load_signing_key w (expanduser w (or_empty (key_path c)))"
    by (simp add: resolve_key_def)
next
  assume "read_text w p = Inr raw \<and> bytes_fromhex (py_strip raw) = Inr seed \<and> length seed \<noteq> 32"
  then show "load_signing_key w p =
        Inl (vault_coded AuthError (''Key file has '' @ show_nat (length seed) @ '' bytes, expected 32'')
               ''AUTH_FAILED'')"
    by (simp add: load_signing_key_def)
next
  assume "read_text w p = Inr raw \<and> bytes_fromhex (py_strip raw) = Inr seed \<and> length seed = 32"
  then show "load_signing_key w p = Inr seed"
    by (simp add: load_signing_key_def SigningKey_def)
next
  assume a: "read_text w p = Inr raw \<and> bytes_fromhex (py_strip raw) = Inl e"
  then have "e = ValueError" using bytes_fromhex_error by blast
  with a show "load_signing_key w p = Inl ValueError" "load_encrypted_key L w p pass = Inl ValueError"
    by (simp_all add: load_signing_key_def load_encrypted_key_def)
next
  assume a: "read_text w p = Inl e"
  then have "e = OSError" by (rule read_text_error)
  with a show "load_signing_key w p = Inl OSError" "load_encrypted_key L w p pass = Inl OSError"
    by (simp_all add: load_signing_key_def load_encrypted_key_def)
next
  assume "read_text w p = Inr raw \<and> bytes_fromhex (py_strip raw) = Inr seed
        \<and> length (pbkdf2_hmac_sha256 L (utf8_encode pass) (take 16 seed)) = 32
        \<and> length (take 24 (drop 16 seed)) = 24
        \<and> secretbox_decrypt L (pbkdf2_hmac_sha256 L (utf8_encode pass) (take 16 seed))
              (take 24 (drop 16 seed)) (drop 40 seed) = None"
  then show "load_encrypted_key L w p pass = Inl CryptoError"
    by (simp add: load_encrypted_key_def Let_def)
qed

text \<open>
  The theorem at a key file of 16 bytes, one of 32 bytes, one that is not hex, a missing
  one, and an encrypted blob opened with a secret box that refuses.
\<close>

theorem key_resolution_failures_witness:
  "resolve_key demo_libs (agent_with_key (Some ''/short'') None) key_world
     = Inl (vault_coded AuthError ''Key file has 16 bytes, expected 32'' ''AUTH_FAILED'')
   \<and> resolve_key demo_libs (agent_with_key (Some ''/k'') None) key_world = Inr (map char_of [0..<32::nat])
   \<and> load_signing_key key_world ''/bad'' = Inl ValueError
   \<and> load_signing_key key_world ''/missing'' = Inl OSError
   \<and> load_encrypted_key demo_libs key_world ''/home/agent/.sanctum/keys/agent.key.enc'' ''secret''
        = Inl CryptoError"
proof -
  let ?short = "map char_of [0..<16::nat]" and ?seed = "map char_of [0..<32::nat]"
  let ?enc = "''/home/agent/.sanctum/keys/agent.key.enc''"
  have t: "str_truthy (key_path (agent_with_key (Some ''/short'') None))"
    "str_truthy (key_path (agent_with_key (Some ''/k'') None))"
    by code_simp+
  have p: "expanduser key_world (or_empty (key_path (agent_with_key (Some ''/short'') None))) = ''/short''"
    "expanduser key_world (or_empty (key_path (agent_with_key (Some ''/k'') None))) = ''/k''"
    by code_simp+
  have a: "read_text key_world ''/short'' = Inr ''00010203 04050607 08090a0b 0c0d0e0f''
      \<and> bytes_fromhex (py_strip ''00010203 04050607 08090a0b 0c0d0e0f'') = Inr ?short
      \<and> length ?short \<noteq> 32"
    by code_simp
  have b: "read_text key_world ''/k'' = Inr (key_hex @ [CHR 0x0A])
      \<and> bytes_fromhex (py_strip (key_hex @ [CHR 0x0A])) = Inr ?seed \<and> length ?seed = 32"
    by code_simp
  have c: "read_text key_world ''/bad'' = Inr ''zz'' \<and> bytes_fromhex (py_strip ''zz'') = Inl ValueError"
    by code_simp
  have d: "read_text key_world ''/missing'' = Inl OSError"
    by code_simp
  have e: "read_text key_world ?enc = Inr (key_hex @ key_hex)
      \<and> bytes_fromhex (py_strip (key_hex @ key_hex)) = Inr (?seed @ ?seed)
      \<and> length (pbkdf2_hmac_sha256 demo_libs (utf8_encode ''secret'') (take 16 (?seed @ ?seed))) = 32
      \<and> length (take 24 (drop 16 (?seed @ ?seed))) = 24
      \<and> secretbox_decrypt demo_libs
            (pbkdf2_hmac_sha256 demo_libs (utf8_encode ''secret'') (take 16 (?seed @ ?seed)))
            (take 24 (drop 16 (?seed @ ?seed))) (drop 40 (?seed @ ?seed)) = None"
    by code_simp
  have m: "''Key file has '' @ show_nat (length ?short) @ '' bytes, expected 32''
      = ''Key file has 16 bytes, expected 32''"
    by code_simp
  note k = key_resolution_failures
  have 1: "resolve_key demo_libs (agent_with_key (Some ''/short'') None) key_world
     = Inl (vault_coded AuthError ''Key file has 16 bytes, expected 32'' ''AUTH_FAILED'')"
  proof -
    from k [where c = "agent_with_key (Some ''/short'') None" and L = demo_libs and w = key_world
          and p = "''/short''" and raw = "''00010203 04050607 08090a0b 0c0d0e0f''" and seed = ?short
          and e = ValueError and pass = "''secret''"] t(1) a
    have "resolve_key demo_libs (agent_with_key (Some ''/short'') None) key_world
        = load_signing_key key_world
            (expanduser key_world (or_empty (key_path (agent_with_key (Some ''/short'') None))))"
      and "load_signing_key key_world ''/short'' =
        Inl (vault_coded AuthError (''Key file has '' @ show_nat (length ?short) @ '' bytes, expected 32'')
               ''AUTH_FAILED'')"
      by blast+
    then show ?thesis by (simp only: p m)
  qed
  have 2: "resolve_key demo_libs (agent_with_key (Some ''/k'') None) key_world = Inr ?seed"
  proof -
    from k [where c = "agent_with_key (Some ''/k'') None" and L = demo_libs and w = key_world
          and p = "''/k''" and raw = "key_hex @ [CHR 0x0A]" and seed = ?seed
          and e = ValueError and pass = "''secret''"] t(2) b
    have "resolve_key demo_libs (agent_with_key (Some ''/k'') None) key_world
        = load_signing_key key_world
            (expanduser key_world (or_empty (key_path (agent_with_key (Some ''/k'') None))))"
      and "load_signing_key key_world ''/k'' = Inr ?seed"
      by blast+
    then show ?thesis by (simp only: p)
  qed
  from k [where c = "agent_with_key (Some ''/k'') None" and L = demo_libs and w = key_world
        and p = "''/bad''" and raw = "''zz''" and seed = ?seed
        and e = ValueError and pass = "''secret''"] c
  have 3: "load_signing_key key_world ''/bad'' = Inl ValueError"
    by blast
  from k [where c = "agent_with_key (Some ''/k'') None" and L = demo_libs and w = key_world
        and p = "''/missing''" and raw = "''zz''" and seed = ?seed
        and e = OSError and pass = "''secret''"] d
  have 4: "load_signing_key key_world ''/missing'' = Inl OSError"
    by blast
  from k [where c = "agent_with_key (Some ''/k'') None" and L = demo_libs and w = key_world
        and p = ?enc and raw = "key_hex @ key_hex" and seed = "?seed @ ?seed"
        and e = OSError and pass = "''secret''"] e
  have 5: "load_encrypted_key demo_libs key_world ?enc ''secret'' = Inl CryptoError"
    by blast
  from 1 2 3 4 5 show ?thesis by blast
qed

text \<open>
  The claim as stated fails: malformed hex in the key file, a wrong passphrase and a missing
  key file each surface as an exception that is not of the authentication kind.
\<close>

theorem malformed_key_counterexample:
  "resolve_key demo_libs (agent_with_key (Some ''/bad'') None) key_world = Inl ValueError
   \<and> resolve_key demo_libs (agent_with_key None (Some ''secret'')) key_world = Inl CryptoError
   \<and> resolve_key demo_libs (agent_with_key (Some ''/missing'') None) key_world = Inl OSError"
  by code_simp

subsection \<open>C10: connecting again\<close>




end
